theory Spec2Isabelle
  imports Main "HOL-Library.AList"
begin

section \<open>Strings\<close>

text \<open>
  A string is a list of characters, one \<^typ>\<open>char\<close> per code unit; the model covers the
  strings whose code units are below 256 (ASCII and Latin-1). The helpers below are the
  string methods and regular expressions the session manager uses, read on such strings.
\<close>

definition code :: "char \<Rightarrow> int" where
  "code c = of_char c"

text \<open>\<^verbatim>\<open>String.prototype.toLowerCase\<close>: \<^verbatim>\<open>A-Z\<close> and the Latin-1 capitals
  (all of \<^verbatim>\<open>0xC0-0xDE\<close> but the multiplication sign) move up by 32.\<close>

definition toLowerChar :: "char \<Rightarrow> char" where
  "toLowerChar c =
     (let n = code c in
      if (65 \<le> n \<and> n \<le> 90) \<or> (192 \<le> n \<and> n \<le> 222 \<and> n \<noteq> 215)
      then char_of (n + 32) else c)"

definition toLowerCase :: "string \<Rightarrow> string" where
  "toLowerCase s = map toLowerChar s"

text \<open>The class \<^verbatim>\<open>\s\<close> (and the characters \<^verbatim>\<open>trim\<close> removes): tab, line feed,
  vertical tab, form feed, carriage return, space and the no-break space.\<close>

definition isSpace :: "char \<Rightarrow> bool" where
  "isSpace c = (let n = code c in (9 \<le> n \<and> n \<le> 13) \<or> n = 32 \<or> n = 160)"

definition isHyphen :: "char \<Rightarrow> bool" where
  "isHyphen c = (c = CHR ''-'')"

text \<open>The class \<^verbatim>\<open>[a-z0-9-]\<close>.\<close>

definition isNameChar :: "char \<Rightarrow> bool" where
  "isNameChar c =
     (let n = code c in (97 \<le> n \<and> n \<le> 122) \<or> (48 \<le> n \<and> n \<le> 57) \<or> isHyphen c)"

text \<open>\<^verbatim>\<open>s.replace(/C+/g, '-')\<close> for a character class \<^verbatim>\<open>C\<close>: every maximal run of
  characters of the class becomes one hyphen.\<close>

function replaceRuns :: "(char \<Rightarrow> bool) \<Rightarrow> string \<Rightarrow> string" where
  "replaceRuns P [] = []"
| "replaceRuns P (c # cs) =
     (if P c then CHR ''-'' # replaceRuns P (dropWhile P cs) else c # replaceRuns P cs)"
  by pat_completeness auto
termination
  by (relation "measure (\<lambda>(P, s). length s)") (auto simp: length_dropWhile_le le_imp_less_Suc)

text \<open>\<^verbatim>\<open>s.replace(/^-|-$/g, '')\<close>: one hyphen goes at the start, then one at the end of
  what is left.\<close>

definition stripHyphens :: "string \<Rightarrow> string" where
  "stripHyphens s =
     (let s1 = (case s of [] \<Rightarrow> [] | c # cs \<Rightarrow> if isHyphen c then cs else s)
      in if s1 \<noteq> [] \<and> isHyphen (last s1) then butlast s1 else s1)"

definition trim :: "string \<Rightarrow> string" where
  "trim s = rev (dropWhile isSpace (rev (dropWhile isSpace s)))"

section \<open>Dates\<close>

text \<open>
  A \<^verbatim>\<open>Date\<close> is its time value, the milliseconds since the epoch, an integer.
  \<open>toISOString\<close> is the built-in rendering \<^verbatim>\<open>YYYY-MM-DDTHH:mm:ss.sssZ\<close> in UTC, with a
  signed six-digit year outside 0..9999; the calendar date comes from the day number by
  the usual era/day-of-era computation of the proleptic Gregorian calendar.
\<close>

type_synonym Date = int

definition digit :: "int \<Rightarrow> char" where
  "digit n = char_of (48 + n mod 10)"

text \<open>The last \<open>w\<close> decimal digits of a number that is not negative.\<close>

fun pad :: "nat \<Rightarrow> int \<Rightarrow> string" where
  "pad 0 n = []"
| "pad (Suc w) n = pad w (n div 10) @ [digit n]"

definition civil :: "int \<Rightarrow> int \<times> int \<times> int" where
  "civil days =
     (let z = days + 719468;
          era = z div 146097;
          doe = z mod 146097;
          yoe = (doe - doe div 1460 + doe div 36524 - doe div 146096) div 365;
          doy = doe - (365 * yoe + yoe div 4 - yoe div 100);
          mp = (5 * doy + 2) div 153;
          d = doy - (153 * mp + 2) div 5 + 1;
          m = (if mp < 10 then mp + 3 else mp - 9);
          y = yoe + era * 400 + (if m \<le> 2 then 1 else 0)
      in (y, m, d))"

definition yearString :: "int \<Rightarrow> string" where
  "yearString y =
     (if 0 \<le> y \<and> y \<le> 9999 then pad 4 y
      else (if y < 0 then ''-'' else ''+'') @ pad 6 \<bar>y\<bar>)"

definition toISOString :: "Date \<Rightarrow> string" where
  "toISOString t =
     (let (y, m, d) = civil (t div 86400000);
          ms = t mod 86400000
      in yearString y @ ''-'' @ pad 2 m @ ''-'' @ pad 2 d @ ''T''
         @ pad 2 (ms div 3600000) @ '':'' @ pad 2 (ms div 60000 mod 60) @ '':''
         @ pad 2 (ms div 1000 mod 60) @ ''.'' @ pad 3 (ms mod 1000) @ ''Z'')"

text \<open>\<^verbatim>\<open>date.toISOString().split('T')[0]\<close>, the UTC calendar date of an instant.\<close>

definition isoDate :: "Date \<Rightarrow> string" where
  "isoDate t = takeWhile (\<lambda>c. c \<noteq> CHR ''T'') (toISOString t)"

section \<open>Document names and session identifiers\<close>

text \<open>
  What one call of \<open>startSession\<close> reads from outside the manager: the clock, three times
  (for the session identifier, for the document name and for the start time), the random
  suffix of the identifier, and the operator: the output of \<^verbatim>\<open>git config user.name\<close>
  (\<open>None\<close> when the command fails) and the environment variable \<^verbatim>\<open>USER\<close>.
\<close>

record StartEnv =
  idClock :: Date
  random36 :: string
  nameClock :: Date
  gitUserName :: "string option"
  envUSER :: "string option"
  startClock :: Date

definition getCurrentUsername :: "StartEnv \<Rightarrow> string" where
  "getCurrentUsername env =
     (case gitUserName env of
        Some stdout \<Rightarrow> replaceRuns isSpace (toLowerCase (trim stdout))
      | None \<Rightarrow>
          (case envUSER env of
             None \<Rightarrow> ''developer''
           | Some u \<Rightarrow>
               (let r = replaceRuns isSpace (toLowerCase u)
                in if r = [] then ''developer'' else r)))"

definition sanitizeProjectName :: "string \<Rightarrow> string" where
  "sanitizeProjectName name =
     take 50
       (stripHyphens
         (replaceRuns isHyphen
           (replaceRuns isSpace
             (filter (\<lambda>c. isNameChar c \<or> isSpace c) (toLowerCase name)))))"

definition getTodaysDate :: "Date \<Rightarrow> string" where
  "getTodaysDate now = isoDate now"

text \<open>The name as a function of the project, the operator and the date.\<close>

definition documentNameOf :: "string \<Rightarrow> string \<Rightarrow> string \<Rightarrow> string" where
  "documentNameOf projectName username today =
     ''session-'' @ sanitizeProjectName projectName @ ''-'' @ today @ ''-'' @ username"

definition generateDocumentName :: "StartEnv \<Rightarrow> string \<Rightarrow> string" where
  "generateDocumentName env projectName =
     (let today = getTodaysDate (nameClock env);
          username = getCurrentUsername env
      in documentNameOf projectName username today)"

definition generateSessionId :: "StartEnv \<Rightarrow> string" where
  "generateSessionId env =
     (let timestamp = map (\<lambda>c. if c = CHR '':'' then CHR ''-'' else c)
                          (take 19 (toISOString (idClock env)));
          random = random36 env
      in ''session-'' @ timestamp @ ''-'' @ random)"

section \<open>The session manager\<close>

text \<open>
  Sessions are objects: the history of a project and the slot of the current session hold
  references to the same object, and \<open>isActive\<close> and \<open>documentId\<close> are written through
  either. The model keeps the objects in a store, a list indexed by address; a reference
  is an address, and a new object takes the next free address. The field \<open>id\<close> of a
  session is \<open>session_id\<close> here.
\<close>

type_synonym addr = nat

record Session =
  session_id :: string
  projectName :: string
  documentId :: string
  documentName :: string
  startTime :: Date
  objective :: string
  template :: string
  previousSessionId :: "string option"
  isActive :: bool

text \<open>A \<^verbatim>\<open>Map\<close> keeps its keys in insertion order: an association list, where
  \<open>set\<close> overwrites the value of a key that is present and appends a new key.\<close>

definition Map_get :: "('k \<times> 'v) list \<Rightarrow> 'k \<Rightarrow> 'v option" where
  "Map_get m k = map_of m k"

definition Map_set :: "('k \<times> 'v) list \<Rightarrow> 'k \<Rightarrow> 'v \<Rightarrow> ('k \<times> 'v) list" where
  "Map_set m k v = AList.update k v m"

record SessionState =
  store :: "Session list"
  currentSession :: "addr option"
  projectSessions :: "(string \<times> addr list) list"
  todaysDocuments :: "(string \<times> string) list"

definition initialState :: SessionState where
  "initialState =
     \<lparr>store = [], currentSession = None, projectSessions = [], todaysDocuments = []\<rparr>"

definition endCurrentSession :: "SessionState \<Rightarrow> SessionState" where
  "endCurrentSession st =
     (case currentSession st of
        Some a \<Rightarrow>
          st\<lparr>store := (store st)[a := (store st ! a)\<lparr>isActive := False\<rparr>],
             currentSession := None\<rparr>
      | None \<Rightarrow> st)"

definition startSession ::
  "StartEnv \<Rightarrow> string \<Rightarrow> string \<Rightarrow> string option \<Rightarrow> SessionState \<Rightarrow> addr \<times> SessionState" where
  "startSession env project objective' template' st =
     (let sessionId = generateSessionId env;
          documentName' = generateDocumentName env project;
          documentId' = Map_get (todaysDocuments st) project;
          sessions = (case Map_get (projectSessions st) project of
                        None \<Rightarrow> [] | Some l \<Rightarrow> l);
          previousSession = (if length sessions > 0 then Some (last sessions) else None);
          session =
            \<lparr>session_id = sessionId,
             projectName = project,
             documentId = (case documentId' of None \<Rightarrow> [] | Some d \<Rightarrow> d),
             documentName = documentName',
             startTime = startClock env,
             objective = objective',
             template = (case template' of None \<Rightarrow> ''project_log'' | Some t \<Rightarrow> t),
             previousSessionId = map_option (\<lambda>p. session_id (store st ! p)) previousSession,
             isActive = True\<rparr>;
          st1 = endCurrentSession st;
          a = length (store st1)
      in (a, st1\<lparr>store := store st1 @ [session],
                  projectSessions := Map_set (projectSessions st1) project (sessions @ [a]),
                  currentSession := Some a\<rparr>))"

text \<open>\<open>continueSession\<close> falls through to the check of the current session,
  \<open>continueCurrent\<close>, when no project is given (an absent argument and the empty string
  are both falsy) or the project has no history.\<close>

definition continueCurrent :: "Date \<Rightarrow> SessionState \<Rightarrow> addr option \<times> SessionState" where
  "continueCurrent now st =
     (case currentSession st of
        Some c \<Rightarrow>
          (let todaysDate = getTodaysDate now;
               sessionDate = isoDate (startTime (store st ! c))
           in if sessionDate = todaysDate then (Some c, st)
              else (None, endCurrentSession st))
      | None \<Rightarrow> (None, st))"

definition continueSession ::
  "Date \<Rightarrow> string option \<Rightarrow> SessionState \<Rightarrow> addr option \<times> SessionState" where
  "continueSession now project st =
     (case project of
        Some name \<Rightarrow>
          (if name \<noteq> [] then
             (case Map_get (projectSessions st) name of
                Some sessions \<Rightarrow>
                  (if length sessions > 0 then
                     (let lastSession = last sessions;
                          todaysDate = getTodaysDate now;
                          sessionDate = isoDate (startTime (store st ! lastSession))
                      in if sessionDate = todaysDate then
                           (let st1 = endCurrentSession st
                            in (Some lastSession,
                                st1\<lparr>store := (store st1)[lastSession :=
                                               (store st1 ! lastSession)\<lparr>isActive := True\<rparr>],
                                    currentSession := Some lastSession\<rparr>))
                         else (None, st))
                   else continueCurrent now st)
              | None \<Rightarrow> continueCurrent now st)
           else continueCurrent now st)
      | None \<Rightarrow> continueCurrent now st)"

definition getCurrentSession :: "SessionState \<Rightarrow> addr option" where
  "getCurrentSession st = currentSession st"

definition getProjectSessions :: "SessionState \<Rightarrow> string \<Rightarrow> addr list" where
  "getProjectSessions st project =
     (case Map_get (projectSessions st) project of None \<Rightarrow> [] | Some l \<Rightarrow> l)"

text \<open>The scan of \<open>setDocumentId\<close>: the entries in insertion order, in each the first
  session with the identifier; the first entry that has one ends the scan.\<close>

fun findSession ::
  "Session list \<Rightarrow> string \<Rightarrow> (string \<times> addr list) list \<Rightarrow> (string \<times> addr) option" where
  "findSession h sessionId [] = None"
| "findSession h sessionId ((project, sessions) # rest) =
     (case find (\<lambda>a. session_id (h ! a) = sessionId) sessions of
        Some a \<Rightarrow> Some (project, a)
      | None \<Rightarrow> findSession h sessionId rest)"

definition setDocumentId :: "string \<Rightarrow> string \<Rightarrow> SessionState \<Rightarrow> SessionState" where
  "setDocumentId sessionId docId st =
     (case findSession (store st) sessionId (projectSessions st) of
        Some (project, a) \<Rightarrow>
          st\<lparr>store := (store st)[a := (store st ! a)\<lparr>documentId := docId\<rparr>],
             todaysDocuments := Map_set (todaysDocuments st) project docId\<rparr>
      | None \<Rightarrow> st)"

text \<open>A stored identifier that is the empty string is falsy, and reads as none.\<close>

definition needsNewDocument :: "SessionState \<Rightarrow> string \<Rightarrow> bool" where
  "needsNewDocument st project =
     (case Map_get (todaysDocuments st) project of None \<Rightarrow> True | Some d \<Rightarrow> d = [])"

definition getTodaysDocumentId :: "SessionState \<Rightarrow> string \<Rightarrow> string option" where
  "getTodaysDocumentId st project =
     (case Map_get (todaysDocuments st) project of
        None \<Rightarrow> None
      | Some d \<Rightarrow> if d = [] then None else Some d)"

section \<open>Ending a session through the service\<close>

datatype error =
    NoActiveSession      \<comment> \<open>\<^verbatim>\<open>No active session to end\<close>\<close>
  | ZodError             \<comment> \<open>a value fails its schema\<close>
  | AppendFailed         \<comment> \<open>authentication or the document service refuses the append\<close>
  | NotInitialized       \<comment> \<open>\<^verbatim>\<open>OAuth2 client not initialized\<close>\<close>
  | NotAuthenticated     \<comment> \<open>\<^verbatim>\<open>No access token available. Authentication required.\<close>\<close>
  | RefreshFailed        \<comment> \<open>\<^verbatim>\<open>Token refresh failed. Re-authentication required.\<close>\<close>
  | InvalidRefreshData   \<comment> \<open>\<^verbatim>\<open>Invalid token data received during refresh\<close>\<close>
  | InvalidTokenData     \<comment> \<open>\<^verbatim>\<open>Invalid token data received from Google API\<close>\<close>
  | SaveFailed           \<comment> \<open>\<^verbatim>\<open>Failed to save tokens\<close>\<close>
  | InitializeFailed     \<comment> \<open>\<^verbatim>\<open>Failed to initialize Google Auth\<close>\<close>
  | NoRefreshToken       \<comment> \<open>the library's \<^verbatim>\<open>No refresh token is set.\<close>\<close>
  | Rejected             \<comment> \<open>the token endpoint refuses the refresh\<close>

record EndSessionInput =
  summary :: "string option"
  nextSteps :: "string list option"

text \<open>What one call of \<open>endSession\<close> reads from outside: the clock, for the generated
  summary and for the time stamp of the note, and whether the document client gets the
  note appended (it is authenticated and the document service accepts the request).\<close>

record EndEnv =
  summaryClock :: Date
  noteClock :: Date
  docsAccept :: bool

text \<open>The decimal digits of a number that is not negative.\<close>

function showNat :: "int \<Rightarrow> string" where
  "showNat n = (if n < 10 then [digit n] else showNat (n div 10) @ [digit n])"
  by pat_completeness auto
termination
  by (relation "measure nat") auto

declare showNat.simps [simp del]

definition showInt :: "int \<Rightarrow> string" where
  "showInt i = (if i < 0 then ''-'' else []) @ showNat \<bar>i\<bar>"

text \<open>\<^verbatim>\<open>Math.round(duration / 60000)\<close> on an integer duration: halves go up.\<close>

definition generateSessionSummary :: "Date \<Rightarrow> Session \<Rightarrow> string" where
  "generateSessionSummary now session =
     (let duration = now - startTime session;
          minutes = (duration + 30000) div 60000
      in ''Session completed after '' @ showInt minutes @ '' minutes. Worked on: ''
         @ objective session)"

definition appendContent :: "bool \<Rightarrow> string \<Rightarrow> string \<Rightarrow> error + unit" where
  "appendContent accept docId content =
     (if docId = [] \<or> content = [] then Inl ZodError
      else if accept then Inr () else Inl AppendFailed)"

text \<open>The heading of the note starts with a check mark, written here as its three bytes
  in UTF-8; of the text only its being non-empty has an effect.\<close>

definition addSessionEnd ::
  "EndEnv \<Rightarrow> string \<Rightarrow> string \<Rightarrow> string list option \<Rightarrow> error + unit" where
  "addSessionEnd env docId summary' steps =
     (let timestamp = toISOString (noteClock env);
          endContent = [CHR 0x0A, CHR 0x0A] @ ''---'' @ [CHR 0x0A] @ ''## ''
            @ [CHR 0xE2, CHR 0x9C, CHR 0x85] @ '' Session Ended'' @ [CHR 0x0A]
            @ ''**Time:** '' @ timestamp @ [CHR 0x0A]
            @ ''**Summary:** '' @ summary' @ [CHR 0x0A];
          endContent1 =
            (case steps of
               None \<Rightarrow> endContent
             | Some l \<Rightarrow>
                 if length l > 0
                 then endContent @ [CHR 0x0A] @ ''**Next Steps:**'' @ [CHR 0x0A]
                      @ concat (map (\<lambda>step. ''- '' @ step @ [CHR 0x0A]) l)
                 else endContent);
          endContent2 = endContent1 @ [CHR 0x0A] @ ''---'' @ [CHR 0x0A, CHR 0x0A]
      in appendContent (docsAccept env) docId endContent2)"

definition endSession ::
  "EndEnv \<Rightarrow> EndSessionInput \<Rightarrow> SessionState \<Rightarrow> (error + addr \<times> string) \<times> SessionState" where
  "endSession env input st =
     (case getCurrentSession st of
        None \<Rightarrow> (Inl NoActiveSession, st)
      | Some cur \<Rightarrow>
          (let summary' =
                 (case summary input of
                    Some s \<Rightarrow> if s \<noteq> [] then s
                              else generateSessionSummary (summaryClock env) (store st ! cur)
                  | None \<Rightarrow> generateSessionSummary (summaryClock env) (store st ! cur))
           in case addSessionEnd env (documentId (store st ! cur)) summary' (nextSteps input) of
                Inl e \<Rightarrow> (Inl e, st)
              | Inr u \<Rightarrow> (Inr (cur, summary'), endCurrentSession st)))"

section \<open>Tokens\<close>

text \<open>
  The client's credentials are an object whose fields may all be absent; \<open>TokenData\<close>,
  what the token schema returns, is such an object with \<open>access_token\<close>, \<open>scope\<close> and
  \<open>token_type\<close> present. A field that is \<^verbatim>\<open>null\<close> or \<^verbatim>\<open>undefined\<close> is \<open>None\<close>.
\<close>

record Credentials =
  access_token :: "string option"
  refresh_token :: "string option"
  scope :: "string option"
  token_type :: "string option"
  expiry_date :: "int option"
  id_token :: "string option"

type_synonym TokenData = Credentials

definition noCredentials :: Credentials where
  "noCredentials =
     \<lparr>access_token = None, refresh_token = None, scope = None, token_type = None,
      expiry_date = None, id_token = None\<rparr>"

text \<open>A value read from a file: one that fits the object schema of the tokens, or
  anything else (no JSON, or a field of the wrong type).\<close>

datatype unknown = Malformed | Object Credentials

definition truthy :: "string option \<Rightarrow> bool" where
  "truthy v = (case v of None \<Rightarrow> False | Some s \<Rightarrow> s \<noteq> [])"

definition orUndefined :: "string option \<Rightarrow> string option" where
  "orUndefined v = (if truthy v then v else None)"

definition orElse :: "string option \<Rightarrow> string \<Rightarrow> string option" where
  "orElse v d = (if truthy v then v else Some d)"

definition TokenDataSchema_parse :: "unknown \<Rightarrow> error + TokenData" where
  "TokenDataSchema_parse u =
     (case u of
        Malformed \<Rightarrow> Inl ZodError
      | Object data \<Rightarrow>
          Inr \<lparr>access_token = orElse (access_token data) [],
               refresh_token = orUndefined (refresh_token data),
               scope = orElse (scope data) [],
               token_type = orElse (token_type data) ''Bearer'',
               expiry_date = (case expiry_date data of
                                None \<Rightarrow> None
                              | Some e \<Rightarrow> if e = 0 then None else Some e),
               id_token = orUndefined (id_token data)\<rparr>)"

definition isTokenExpired :: "TokenData \<Rightarrow> Date \<Rightarrow> bool" where
  "isTokenExpired tokens now =
     (case expiry_date tokens of
        None \<Rightarrow> True
      | Some e \<Rightarrow> if e = 0 then True else now \<ge> e)"

section \<open>The authentication manager\<close>

record GoogleCredentials =
  client_id :: string
  client_secret :: string
  redirect_uris :: "string list"

text \<open>The credentials file as \<open>initialize\<close> finds it: absent or rejected by the schema,
  or accepted, in the flat or in the nested format.\<close>

datatype credentialsFile = Unusable | Flat GoogleCredentials | Installed GoogleCredentials

record OAuth2Client =
  clientId :: string
  clientSecret :: string
  redirectUri :: string
  credentials :: Credentials

text \<open>
  The manager's client (\<open>None\<close> until \<open>initialize\<close> has made it), the token file
  (\<open>None\<close> when there is none) and the number of requests sent to the token endpoint.
\<close>

record AuthWorld =
  oauth2Client :: "OAuth2Client option"
  tokenFile :: "unknown option"
  tokenRequests :: nat

text \<open>
  What the token endpoint grants: an object that the token schema accepts, or an object
  that it refuses, for a field other than the refresh token that has another type than
  the schema's. The record is what the fields of the object read as.
\<close>

datatype grant = WellTyped Credentials | IllTyped Credentials

definition grantFields :: "grant \<Rightarrow> Credentials" where
  "grantFields g = (case g of WellTyped c \<Rightarrow> c | IllTyped c \<Rightarrow> c)"

definition asUnknown :: "grant \<Rightarrow> unknown" where
  "asUnknown g = (case g of WellTyped c \<Rightarrow> Object c | IllTyped c \<Rightarrow> Malformed)"

definition withRefreshToken :: "string option \<Rightarrow> grant \<Rightarrow> grant" where
  "withRefreshToken rt g =
     (case g of
        WellTyped c \<Rightarrow> WellTyped (c\<lparr>refresh_token := rt\<rparr>)
      | IllTyped c \<Rightarrow> IllTyped (c\<lparr>refresh_token := rt\<rparr>))"

text \<open>What a call reads from outside: the clock, the answer the token endpoint would
  give to a refresh (\<open>None\<close>: it refuses), and whether the token file can be written.\<close>

record AuthEnv =
  clock :: Date
  endpoint :: "grant option"
  writable :: bool

definition setCredentials :: "Credentials \<Rightarrow> AuthWorld \<Rightarrow> AuthWorld" where
  "setCredentials c w =
     (case oauth2Client w of
        Some cl \<Rightarrow> w\<lparr>oauth2Client := Some (cl\<lparr>credentials := c\<rparr>)\<rparr>
      | None \<Rightarrow> w)"

text \<open>
  The library's \<open>refreshAccessToken\<close>, as the manager relies on it: without a refresh
  token it fails before any request; otherwise it sends one request, and on a grant
  keeps the granted object, with the refresh token it had, as the client's credentials
  and returns it, whether or not the token schema will accept it.
\<close>

definition refreshAccessToken ::
  "AuthEnv \<Rightarrow> OAuth2Client \<Rightarrow> AuthWorld \<Rightarrow> (error + grant) \<times> AuthWorld" where
  "refreshAccessToken env cl w =
     (if \<not> truthy (refresh_token (credentials cl)) then (Inl NoRefreshToken, w)
      else
        (let w1 = w\<lparr>tokenRequests := Suc (tokenRequests w)\<rparr>
         in case endpoint env of
              None \<Rightarrow> (Inl Rejected, w1)
            | Some granted \<Rightarrow>
                (let tokens = withRefreshToken (refresh_token (credentials cl)) granted
                 in (Inr tokens,
                     w1\<lparr>oauth2Client := Some (cl\<lparr>credentials := grantFields tokens\<rparr>)\<rparr>))))"

definition saveTokens :: "AuthEnv \<Rightarrow> TokenData \<Rightarrow> AuthWorld \<Rightarrow> (error + unit) \<times> AuthWorld" where
  "saveTokens env tokens w =
     (case TokenDataSchema_parse (Object tokens) of
        Inl z \<Rightarrow> (Inl InvalidTokenData, w)
      | Inr validatedTokens \<Rightarrow>
          if writable env then (Inr (), w\<lparr>tokenFile := Some (Object validatedTokens)\<rparr>)
          else (Inl SaveFailed, w))"

definition refreshTokens :: "AuthEnv \<Rightarrow> AuthWorld \<Rightarrow> (error + unit) \<times> AuthWorld" where
  "refreshTokens env w =
     (case oauth2Client w of
        None \<Rightarrow> (Inl NotInitialized, w)
      | Some cl \<Rightarrow>
          (case refreshAccessToken env cl w of
             (Inl e, w1) \<Rightarrow> (Inl RefreshFailed, w1)
           | (Inr creds, w1) \<Rightarrow>
               (case TokenDataSchema_parse (asUnknown creds) of
                  Inl z \<Rightarrow> (Inl InvalidRefreshData, w1)
                | Inr validatedTokens \<Rightarrow>
                    (let w2 = setCredentials validatedTokens w1
                     in case saveTokens env validatedTokens w2 of
                          (Inl e, w3) \<Rightarrow> (Inl RefreshFailed, w3)
                        | (Inr u, w3) \<Rightarrow> (Inr (), w3)))))"

text \<open>\<open>loadTokens\<close> catches every failure, also that of the refresh it starts.\<close>

definition loadTokens :: "AuthEnv \<Rightarrow> AuthWorld \<Rightarrow> AuthWorld" where
  "loadTokens env w =
     (case tokenFile w of
        None \<Rightarrow> w
      | Some tokenData \<Rightarrow>
          (case TokenDataSchema_parse tokenData of
             Inl z \<Rightarrow> w
           | Inr validatedTokens \<Rightarrow>
               (case oauth2Client w of
                  Some cl \<Rightarrow>
                    (let w1 = setCredentials validatedTokens w
                     in if isTokenExpired validatedTokens (clock env)
                        then snd (refreshTokens env w1) else w1)
                | None \<Rightarrow> w)))"

definition newClient :: "GoogleCredentials \<Rightarrow> OAuth2Client" where
  "newClient c =
     \<lparr>clientId = client_id c,
      clientSecret = client_secret c,
      redirectUri = (case redirect_uris c of
                       [] \<Rightarrow> ''urn:ietf:wg:oauth:2.0:oob''
                     | u # us \<Rightarrow> if u = [] then ''urn:ietf:wg:oauth:2.0:oob'' else u),
      credentials = noCredentials\<rparr>"

definition initialize ::
  "AuthEnv \<Rightarrow> credentialsFile \<Rightarrow> AuthWorld \<Rightarrow> (error + unit) \<times> AuthWorld" where
  "initialize env file w =
     (case file of
        Unusable \<Rightarrow> (Inl InitializeFailed, w)
      | Flat c \<Rightarrow> (Inr (), loadTokens env (w\<lparr>oauth2Client := Some (newClient c)\<rparr>))
      | Installed c \<Rightarrow> (Inr (), loadTokens env (w\<lparr>oauth2Client := Some (newClient c)\<rparr>)))"

definition getAuthenticatedClient ::
  "AuthEnv \<Rightarrow> AuthWorld \<Rightarrow> (error + OAuth2Client) \<times> AuthWorld" where
  "getAuthenticatedClient env w =
     (case oauth2Client w of
        None \<Rightarrow> (Inl NotInitialized, w)
      | Some cl \<Rightarrow>
          if \<not> truthy (access_token (credentials cl)) then (Inl NotAuthenticated, w)
          else if isTokenExpired (credentials cl) (clock env) then
            (case refreshTokens env w of
               (Inl e, w1) \<Rightarrow> (Inl e, w1)
             | (Inr u, w1) \<Rightarrow>
                 (case oauth2Client w1 of
                    Some cl1 \<Rightarrow> (Inr cl1, w1)
                  | None \<Rightarrow> (Inl NotInitialized, w1)))
          else (Inr cl, w))"

definition isAuthenticated :: "Date \<Rightarrow> AuthWorld \<Rightarrow> bool" where
  "isAuthenticated now w =
     (case oauth2Client w of
        None \<Rightarrow> False
      | Some cl \<Rightarrow>
          truthy (access_token (credentials cl)) \<and> \<not> isTokenExpired (credentials cl) now)"

section \<open>Sequences of operations\<close>

text \<open>The sessions of the store whose \<open>isActive\<close> is set.\<close>

definition activeSessions :: "SessionState \<Rightarrow> addr list" where
  "activeSessions st = filter (\<lambda>a. isActive (store st ! a)) [0..<length (store st)]"

text \<open>
  The states the manager can be in: every reference (in a history, in the slot of the
  current session) is to an object of the store, and the active sessions are the current
  one, if there is one, and no other.
\<close>

definition wellFormed :: "SessionState \<Rightarrow> bool" where
  "wellFormed st =
     (list_all (\<lambda>(project, sessions). list_all (\<lambda>a. a < length (store st)) sessions)
        (projectSessions st)
      \<and> (case currentSession st of None \<Rightarrow> True | Some c \<Rightarrow> c < length (store st))
      \<and> activeSessions st = (case currentSession st of None \<Rightarrow> [] | Some c \<Rightarrow> [c]))"

datatype operation =
    Start StartEnv string string "string option"
  | Continue Date "string option"
  | End
  | ServiceEnd EndEnv EndSessionInput
  | AttachDocument string string

fun step :: "operation \<Rightarrow> SessionState \<Rightarrow> SessionState" where
  "step (Start env project objective' template') st =
     snd (startSession env project objective' template' st)"
| "step (Continue now project) st = snd (continueSession now project st)"
| "step End st = endCurrentSession st"
| "step (ServiceEnd env input) st = snd (endSession env input st)"
| "step (AttachDocument sessionId docId) st = setDocumentId sessionId docId st"

definition run :: "operation list \<Rightarrow> SessionState \<Rightarrow> SessionState" where
  "run ops st = foldl (\<lambda>s op. step op s) st ops"

text \<open>The effect of a continuation that finds a session of today: the current session
  ends and the found one becomes the current, active one.\<close>

definition reactivated :: "addr \<Rightarrow> SessionState \<Rightarrow> SessionState" where
  "reactivated l st =
     (endCurrentSession st)
       \<lparr>store := (store (endCurrentSession st))
                   [l := (store (endCurrentSession st) ! l)\<lparr>isActive := True\<rparr>],
        currentSession := Some l\<rparr>"

section \<open>Examples\<close>

text \<open>Two calls of \<open>startSession\<close> on 15 January 2025, at 10:30:00 and 10:31:00 UTC, and
  the instants used with them: later the same day, and the same time one day later.\<close>

definition envA :: StartEnv where
  "envA = \<lparr>idClock = 1736937000000, random36 = ''k3j9x1'', nameClock = 1736937000000,
            gitUserName = Some ''Jane Doe'', envUSER = None, startClock = 1736937000000\<rparr>"

definition envB :: StartEnv where
  "envB = \<lparr>idClock = 1736937060000, random36 = ''q0w8e2'', nameClock = 1736937060000,
            gitUserName = Some ''J.Doe'', envUSER = None, startClock = 1736937060000\<rparr>"

definition sameDay :: Date where
  "sameDay = 1736970000000"

definition nextDay :: Date where
  "nextDay = 1737023400000"

definition cartStarted :: SessionState where
  "cartStarted = snd (startSession envA ''Cart'' ''Add wishlist'' None initialState)"

definition cartAttached :: SessionState where
  "cartAttached = setDocumentId ''session-2025-01-15T10-30-00-k3j9x1'' ''doc-1'' cartStarted"

text \<open>A third start, of the same project, at 10:30:00 UTC on 16 January 2025.\<close>

definition envC :: StartEnv where
  "envC = \<lparr>idClock = 1737023400000, random36 = ''m5n6b7'', nameClock = 1737023400000,
            gitUserName = Some ''Jane Doe'', envUSER = None, startClock = 1737023400000\<rparr>"

text \<open>The end of a session when the document client refuses the note, and when it
  accepts it; the caller gives no summary and no next steps.\<close>

definition endRefused :: EndEnv where
  "endRefused = \<lparr>summaryClock = sameDay, noteClock = sameDay, docsAccept = False\<rparr>"

definition endAccepted :: EndEnv where
  "endAccepted = \<lparr>summaryClock = sameDay, noteClock = sameDay, docsAccept = True\<rparr>"

definition noInput :: EndSessionInput where
  "noInput = \<lparr>summary = None, nextSteps = None\<rparr>"

text \<open>
  An authentication manager before \<open>initialize\<close>; one whose tokens expired on 15 January
  2025 at 10:30:00 UTC, with and without a refresh token; a token endpoint that refuses
  the refresh and one that grants tokens valid until 20:40:00 UTC; the same grant when
  the token file cannot be written, and a grant that the token schema refuses.
\<close>

definition googleCredentials :: GoogleCredentials where
  "googleCredentials = \<lparr>client_id = ''client-1'', client_secret = ''secret-1'',
                         redirect_uris = [''http://localhost'']\<rparr>"

definition noWorld :: AuthWorld where
  "noWorld = \<lparr>oauth2Client = None, tokenFile = None, tokenRequests = 0\<rparr>"

definition oldTokens :: TokenData where
  "oldTokens = \<lparr>access_token = Some ''at-1'', refresh_token = Some ''rt-1'', scope = Some ''docs'',
                 token_type = Some ''Bearer'', expiry_date = Some 1736937000000, id_token = None\<rparr>"

definition grantedTokens :: Credentials where
  "grantedTokens = \<lparr>access_token = Some ''at-2'', refresh_token = None, scope = Some ''docs'',
                     token_type = Some ''Bearer'', expiry_date = Some 1736973600000, id_token = None\<rparr>"

definition expiredClient :: OAuth2Client where
  "expiredClient = (newClient googleCredentials)\<lparr>credentials := oldTokens\<rparr>"

definition expiredWorld :: AuthWorld where
  "expiredWorld =
     \<lparr>oauth2Client = Some expiredClient,
      tokenFile = Some (Object oldTokens), tokenRequests = 0\<rparr>"

definition noRefreshWorld :: AuthWorld where
  "noRefreshWorld =
     \<lparr>oauth2Client = Some ((newClient googleCredentials)
        \<lparr>credentials := oldTokens\<lparr>refresh_token := None\<rparr>\<rparr>),
      tokenFile = Some (Object (oldTokens\<lparr>refresh_token := None\<rparr>)), tokenRequests = 0\<rparr>"

definition newTokens :: TokenData where
  "newTokens = grantedTokens\<lparr>refresh_token := Some ''rt-1''\<rparr>"

definition refusing :: AuthEnv where
  "refusing = \<lparr>clock = sameDay, endpoint = None, writable = True\<rparr>"

definition granting :: AuthEnv where
  "granting = \<lparr>clock = sameDay, endpoint = Some (WellTyped grantedTokens), writable = True\<rparr>"

definition unwritable :: AuthEnv where
  "unwritable = \<lparr>clock = sameDay, endpoint = Some (WellTyped grantedTokens), writable = False\<rparr>"

definition illTyping :: AuthEnv where
  "illTyping = \<lparr>clock = sameDay, endpoint = Some (IllTyped grantedTokens), writable = True\<rparr>"

section \<open>Facts about the string helpers\<close>

lemma replaceRuns_chars:
  "c \<in> set (replaceRuns P s) \<Longrightarrow> c = CHR ''-'' \<or> (c \<in> set s \<and> \<not> P c)"
proof (induction P s rule: replaceRuns.induct)
  case (1 P)
  then show ?case by simp
next
  case (2 P d ds)
  show ?case
  proof (cases "P d")
    case True
    with 2 show ?thesis by (auto dest: set_dropWhileD)
  next
    case False
    with 2 show ?thesis by auto
  qed
qed

lemma stripHyphens_chars: "c \<in> set (stripHyphens s) \<Longrightarrow> c \<in> set s"
  by (auto simp: stripHyphens_def Let_def split: list.splits if_splits dest: in_set_butlastD)

lemma isNameChar_hyphen: "isNameChar (CHR ''-'')"
  by (simp add: isNameChar_def isHyphen_def)

lemma sanitizeProjectName_chars:
  assumes "c \<in> set (sanitizeProjectName name)"
  shows "isNameChar c"
proof -
  let ?kept = "filter (\<lambda>c. isNameChar c \<or> isSpace c) (toLowerCase name)"
  from assms have "c \<in> set (stripHyphens (replaceRuns isHyphen (replaceRuns isSpace ?kept)))"
    unfolding sanitizeProjectName_def by (rule in_set_takeD)
  then have "c \<in> set (replaceRuns isHyphen (replaceRuns isSpace ?kept))"
    by (rule stripHyphens_chars)
  then have "c = CHR ''-'' \<or> c \<in> set (replaceRuns isSpace ?kept)"
    by (auto dest: replaceRuns_chars)
  then have "c = CHR ''-'' \<or> (c \<in> set ?kept \<and> \<not> isSpace c)"
    by (auto dest: replaceRuns_chars)
  then show ?thesis
    by (auto simp: isNameChar_hyphen)
qed

lemma sanitizeProjectName_length: "length (sanitizeProjectName name) \<le> 50"
  by (simp add: sanitizeProjectName_def)

lemma documentNameOf_length:
  "length (documentNameOf p u d) = 10 + length (sanitizeProjectName p) + length d + length u"
  by (simp add: documentNameOf_def)

lemma list_all_sanitizeProjectName: "list_all isNameChar (sanitizeProjectName p)"
  by (simp add: list_all_iff sanitizeProjectName_chars)

section \<open>Facts about dates\<close>

lemma digit_not_T: "digit n \<noteq> CHR ''T''"
proof -
  have "0 \<le> n mod 10 \<and> n mod 10 < 10" by simp
  then have "take_bit 8 (48 + n mod 10) = 48 + n mod 10"
    by (simp add: take_bit_eq_mod)
  then show ?thesis
    by (auto simp: digit_def char_of_eq_iff)
qed

lemma pad_not_T: "CHR ''T'' \<notin> set (pad w n)"
  by (induction w n rule: pad.induct) (auto simp: digit_not_T [symmetric])

lemma yearString_not_T: "CHR ''T'' \<notin> set (yearString y)"
  by (simp add: yearString_def pad_not_T)

lemma takeWhile_stop:
  "(\<And>c. c \<in> set xs \<Longrightarrow> P c) \<Longrightarrow> \<not> P x \<Longrightarrow> takeWhile P (xs @ x # ys) = xs"
  by (induction xs) simp_all

lemma isoDate_civil:
  "isoDate t = (case civil (t div 86400000) of
                  (y, m, d) \<Rightarrow> yearString y @ ''-'' @ pad 2 m @ ''-'' @ pad 2 d)"
proof -
  obtain y m d where c: "civil (t div 86400000) = (y, m, d)" by (cases "civil (t div 86400000)")
  let ?date = "yearString y @ ''-'' @ pad 2 m @ ''-'' @ pad 2 d"
  have "\<exists>rest. toISOString t = ?date @ CHR ''T'' # rest"
    by (simp add: toISOString_def c Let_def)
  then obtain rest where r: "toISOString t = ?date @ CHR ''T'' # rest" ..
  have n: "c \<noteq> CHR ''T''" if "c \<in> set ?date" for c
    using that pad_not_T [of 2 m] pad_not_T [of 2 d] yearString_not_T [of y] by auto
  have "takeWhile (\<lambda>c. c \<noteq> CHR ''T'') (?date @ CHR ''T'' # rest) = ?date"
    using n takeWhile_stop [of ?date "\<lambda>c. c \<noteq> CHR ''T''" "CHR ''T''" rest] by blast
  then show ?thesis by (simp add: isoDate_def r c)
qed

lemma isoDate_same_day:
  "t1 div 86400000 = t2 div 86400000 \<Longrightarrow> isoDate t1 = isoDate t2"
  by (simp add: isoDate_civil)

section \<open>Facts about the session manager\<close>

lemma findSession_cong:
  assumes "\<And>a. session_id (h' ! a) = session_id (h ! a)"
  shows "findSession h' sid ps = findSession h sid ps"
  by (induction ps) (auto simp: assms split: option.splits)

lemma session_id_update:
  "session_id (h[a := (h ! a)\<lparr>documentId := d\<rparr>] ! b) = session_id (h ! b)"
proof (cases "a < length h")
  case True
  then show ?thesis by (cases "b = a") simp_all
next
  case False
  then show ?thesis by (simp add: list_update_beyond)
qed

lemma update_twice:
  "h[a := (h[a := (h ! a)\<lparr>documentId := d\<rparr>] ! a)\<lparr>documentId := d\<rparr>]
     = h[a := (h ! a)\<lparr>documentId := d\<rparr>]"
proof (cases "a < length h")
  case True
  then show ?thesis by simp
next
  case False
  then show ?thesis by (simp add: list_update_beyond)
qed

lemma Map_set_twice: "Map_set (Map_set m k v) k v = Map_set m k v"
  by (simp add: Map_set_def AList.update_last)

lemma filter_upt_eq: "c < n \<Longrightarrow> filter (\<lambda>a. a = c) [0..<n] = [c]"
proof (induction n)
  case 0
  then show ?case by simp
next
  case (Suc n)
  show ?case
  proof (cases "c = n")
    case True
    have "filter (\<lambda>a. a = n) [0..<n] = []" by (simp add: filter_empty_conv)
    with True show ?thesis by simp
  next
    case False
    with Suc show ?thesis by simp
  qed
qed

lemma filter_upt_single:
  assumes "c < n" and "\<And>a. a < n \<Longrightarrow> P a \<longleftrightarrow> a = c"
  shows "filter P [0..<n] = [c]"
proof -
  have "filter P [0..<n] = filter (\<lambda>a. a = c) [0..<n]"
    by (rule filter_cong) (simp_all add: assms(2))
  then show ?thesis using assms(1) by (simp add: filter_upt_eq)
qed

lemma activeSessions_Nil:
  "activeSessions st = [] \<longleftrightarrow> (\<forall>a < length (store st). \<not> isActive (store st ! a))"
  by (auto simp: activeSessions_def filter_empty_conv)

lemma activeSessions_single:
  "activeSessions st = [c] \<longleftrightarrow>
     c < length (store st) \<and> (\<forall>a < length (store st). isActive (store st ! a) \<longleftrightarrow> a = c)"
proof
  assume h: "activeSessions st = [c]"
  have "set (activeSessions st) = {a. a < length (store st) \<and> isActive (store st ! a)}"
    by (auto simp: activeSessions_def)
  with h have "{a. a < length (store st) \<and> isActive (store st ! a)} = {c}" by simp
  then show "c < length (store st) \<and> (\<forall>a < length (store st). isActive (store st ! a) \<longleftrightarrow> a = c)"
    by blast
next
  assume "c < length (store st) \<and> (\<forall>a < length (store st). isActive (store st ! a) \<longleftrightarrow> a = c)"
  then show "activeSessions st = [c]"
    unfolding activeSessions_def by (intro filter_upt_single) auto
qed

lemma wellFormed_iff:
  "wellFormed st \<longleftrightarrow>
     (\<forall>p l a. (p, l) \<in> set (projectSessions st) \<longrightarrow> a \<in> set l \<longrightarrow> a < length (store st))
     \<and> (\<forall>a < length (store st). isActive (store st ! a) \<longleftrightarrow> currentSession st = Some a)
     \<and> (\<forall>c. currentSession st = Some c \<longrightarrow> c < length (store st))"
proof (cases "currentSession st")
  case None
  then show ?thesis
    by (auto simp: wellFormed_def activeSessions_Nil list_all_iff)
next
  case (Some c)
  then show ?thesis
    by (auto simp: wellFormed_def activeSessions_single list_all_iff)
qed


lemma wellFormed_initial: "wellFormed initialState"
  by (simp add: wellFormed_def initialState_def activeSessions_def)

lemma endCurrentSession_fields:
  "currentSession (endCurrentSession st) = None"
  "projectSessions (endCurrentSession st) = projectSessions st"
  "todaysDocuments (endCurrentSession st) = todaysDocuments st"
  "length (store (endCurrentSession st)) = length (store st)"
  by (simp_all add: endCurrentSession_def split: option.splits)

lemma endCurrentSession_inactive:
  assumes "wellFormed st" and "a < length (store st)"
  shows "\<not> isActive (store (endCurrentSession st) ! a)"
proof (cases "currentSession st")
  case None
  with assms show ?thesis by (simp add: endCurrentSession_def wellFormed_iff)
next
  case (Some c)
  with assms show ?thesis
    by (cases "a = c") (simp_all add: endCurrentSession_def wellFormed_iff)
qed

lemma endCurrentSession_wellFormed:
  assumes "wellFormed st"
  shows "wellFormed (endCurrentSession st)"
  unfolding wellFormed_iff [of "endCurrentSession st"]
  using assms endCurrentSession_inactive [OF assms]
  by (simp add: endCurrentSession_fields) (simp add: wellFormed_iff)

lemma activeSessions_endCurrentSession:
  "wellFormed st \<Longrightarrow> activeSessions (endCurrentSession st) = []"
  by (simp add: activeSessions_Nil endCurrentSession_fields endCurrentSession_inactive)

lemma Map_get_in_set: "Map_get m k = Some v \<Longrightarrow> (k, v) \<in> set m"
  by (simp add: Map_get_def map_of_SomeD)

lemma Map_set_in_set: "(p, l) \<in> set (Map_set m k v) \<Longrightarrow> (p, l) \<in> set m \<or> (p = k \<and> l = v)"
  unfolding Map_set_def by (induction m) (auto split: if_splits)


lemma startSession_fields:
  "fst (startSession env p ob t st) = length (store st)"
  "currentSession (snd (startSession env p ob t st)) = Some (length (store st))"
  "todaysDocuments (snd (startSession env p ob t st)) = todaysDocuments st"
  "projectSessions (snd (startSession env p ob t st)) =
     Map_set (projectSessions st) p (getProjectSessions st p @ [length (store st)])"
  "length (store (snd (startSession env p ob t st))) = Suc (length (store st))"
  by (simp_all add: startSession_def Let_def endCurrentSession_fields getProjectSessions_def)

lemma startSession_store:
  "\<exists>s. store (snd (startSession env p ob t st)) = store (endCurrentSession st) @ [s]
       \<and> isActive s \<and> projectName s = p \<and> startTime s = startClock env
       \<and> documentId s = (case Map_get (todaysDocuments st) p of None \<Rightarrow> [] | Some d \<Rightarrow> d)"
  by (simp add: startSession_def Let_def)

lemma startSession_nth:
  "a < length (store st) \<Longrightarrow>
     store (snd (startSession env p ob t st)) ! a = store (endCurrentSession st) ! a"
  "isActive (store (snd (startSession env p ob t st)) ! length (store st))"
  "projectName (store (snd (startSession env p ob t st)) ! length (store st)) = p"
  using startSession_store [of env p ob t st]
  by (auto simp: nth_append endCurrentSession_fields)

lemma getProjectSessions_refs:
  assumes "wellFormed st" and "a \<in> set (getProjectSessions st p)"
  shows "a < length (store st)"
proof (cases "Map_get (projectSessions st) p")
  case None
  with assms(2) show ?thesis by (simp add: getProjectSessions_def)
next
  case (Some l)
  then have "(p, l) \<in> set (projectSessions st)" by (rule Map_get_in_set)
  moreover from Some assms(2) have "a \<in> set l" by (simp add: getProjectSessions_def)
  ultimately show ?thesis using assms(1) by (auto simp: wellFormed_iff)
qed

lemma startSession_wellFormed:
  assumes "wellFormed st"
  shows "wellFormed (snd (startSession env p ob t st))"
proof -
  let ?st' = "snd (startSession env p ob t st)"
  let ?n = "length (store st)"
  have refs: "a < Suc ?n" if "(q, l) \<in> set (projectSessions ?st')" and "a \<in> set l" for q l a
  proof -
    from that(1) have "(q, l) \<in> set (projectSessions st) \<or> l = getProjectSessions st p @ [?n]"
      by (auto simp: startSession_fields dest: Map_set_in_set)
    then show ?thesis
    proof
      assume "(q, l) \<in> set (projectSessions st)"
      with assms that(2) have "a < ?n" by (auto simp: wellFormed_iff)
      then show ?thesis by simp
    next
      assume "l = getProjectSessions st p @ [?n]"
      with that(2) have "a \<in> set (getProjectSessions st p) \<or> a = ?n" by auto
      then show ?thesis using getProjectSessions_refs [OF assms] by (auto simp: less_Suc_eq)
    qed
  qed
  have act: "isActive (store ?st' ! a) \<longleftrightarrow> a = ?n" if "a < Suc ?n" for a
  proof (cases "a = ?n")
    case True
    then show ?thesis by (simp add: startSession_nth)
  next
    case False
    with that have "a < ?n" by simp
    then show ?thesis
      using endCurrentSession_inactive [OF assms] by (simp add: startSession_nth)
  qed
  show ?thesis
    unfolding wellFormed_iff [of ?st']
    using refs act by (auto simp: startSession_fields)
qed

lemma startSession_active:
  assumes "wellFormed st"
  shows "activeSessions (snd (startSession env p ob t st)) = [length (store st)]"
  using startSession_wellFormed [OF assms, of env p ob t]
  by (simp add: wellFormed_def startSession_fields)



lemma endCurrentSession_nth:
  "(store (endCurrentSession st) ! a)\<lparr>isActive := b\<rparr> = (store st ! a)\<lparr>isActive := b\<rparr>"
proof (cases "currentSession st")
  case None
  then show ?thesis by (simp add: endCurrentSession_def)
next
  case (Some c)
  show ?thesis
  proof (cases "a = c \<and> c < length (store st)")
    case True
    with Some show ?thesis by (simp add: endCurrentSession_def)
  next
    case False
    with Some show ?thesis
      by (cases "a = c") (simp_all add: endCurrentSession_def list_update_beyond)
  qed
qed

lemma reactivated_fields:
  "currentSession (reactivated l st) = Some l"
  "projectSessions (reactivated l st) = projectSessions st"
  "todaysDocuments (reactivated l st) = todaysDocuments st"
  "length (store (reactivated l st)) = length (store st)"
  by (simp_all add: reactivated_def endCurrentSession_fields)

lemma reactivated_nth:
  assumes "l < length (store st)"
  shows "store (reactivated l st) ! l = (store st ! l)\<lparr>isActive := True\<rparr>"
    and "a \<noteq> l \<Longrightarrow> store (reactivated l st) ! a = store (endCurrentSession st) ! a"
  using assms by (simp_all add: reactivated_def endCurrentSession_fields endCurrentSession_nth)

lemma reactivated_wellFormed:
  assumes "wellFormed st" and "l < length (store st)"
  shows "wellFormed (reactivated l st)"
proof -
  have act: "isActive (store (reactivated l st) ! a) \<longleftrightarrow> a = l" if "a < length (store st)" for a
  proof (cases "a = l")
    case True
    then show ?thesis by (simp add: reactivated_nth(1) [OF assms(2)])
  next
    case False
    then show ?thesis
      using endCurrentSession_inactive [OF assms(1) that]
      by (simp add: reactivated_nth(2) [OF assms(2)])
  qed
  show ?thesis
    unfolding wellFormed_iff [of "reactivated l st"]
    using assms act by (auto simp: reactivated_fields wellFormed_iff)
qed

lemma continueCurrent_cases:
  "continueCurrent now st = (None, st) \<and> currentSession st = None
   \<or> (\<exists>c. currentSession st = Some c \<and> isoDate (startTime (store st ! c)) = getTodaysDate now
          \<and> continueCurrent now st = (Some c, st))
   \<or> (\<exists>c. currentSession st = Some c \<and> isoDate (startTime (store st ! c)) \<noteq> getTodaysDate now
          \<and> continueCurrent now st = (None, endCurrentSession st))"
  by (cases "currentSession st") (simp_all add: continueCurrent_def Let_def)

lemma continueCurrent_wellFormed:
  "wellFormed st \<Longrightarrow> wellFormed (snd (continueCurrent now st))"
  using continueCurrent_cases [of now st] by (auto simp: endCurrentSession_wellFormed)

lemma continueSession_today:
  assumes "name \<noteq> []" and "Map_get (projectSessions st) name = Some sessions"
    and "sessions \<noteq> []"
    and "isoDate (startTime (store st ! last sessions)) = getTodaysDate now"
  shows "continueSession now (Some name) st = (Some (last sessions), reactivated (last sessions) st)"
  using assms by (simp add: continueSession_def reactivated_def Let_def)

lemma continueSession_other_day:
  assumes "name \<noteq> []" and "Map_get (projectSessions st) name = Some sessions"
    and "sessions \<noteq> []"
    and "isoDate (startTime (store st ! last sessions)) \<noteq> getTodaysDate now"
  shows "continueSession now (Some name) st = (None, st)"
  using assms by (simp add: continueSession_def Let_def)

lemma continueSession_fallthrough:
  assumes "project = None \<or> project = Some [] \<or> Map_get (projectSessions st) (the project) = None
           \<or> Map_get (projectSessions st) (the project) = Some []"
  shows "continueSession now project st = continueCurrent now st"
  using assms by (auto simp: continueSession_def split: option.splits)

lemma continueSession_wellFormed:
  assumes "wellFormed st"
  shows "wellFormed (snd (continueSession now project st))"
proof (cases "\<exists>name sessions. project = Some name \<and> name \<noteq> []
                \<and> Map_get (projectSessions st) name = Some sessions \<and> sessions \<noteq> []")
  case True
  then obtain name sessions where h: "project = Some name" "name \<noteq> []"
      "Map_get (projectSessions st) name = Some sessions" "sessions \<noteq> []" by blast
  from h(3) have "(name, sessions) \<in> set (projectSessions st)" by (rule Map_get_in_set)
  with assms h(4) have l: "last sessions < length (store st)"
    by (auto simp: wellFormed_iff)
  show ?thesis
  proof (cases "isoDate (startTime (store st ! last sessions)) = getTodaysDate now")
    case True
    then show ?thesis
      using continueSession_today [OF h(2) h(3) h(4)] h(1) reactivated_wellFormed [OF assms l]
      by simp
  next
    case False
    then show ?thesis
      using continueSession_other_day [OF h(2) h(3) h(4)] h(1) assms by simp
  qed
next
  case False
  then have "continueSession now project st = continueCurrent now st"
    by (intro continueSession_fallthrough) (cases project; cases "Map_get (projectSessions st) (the project)"; auto)
  then show ?thesis using continueCurrent_wellFormed [OF assms] by simp
qed


lemma isActive_update:
  "isActive (h[a := (h ! a)\<lparr>documentId := d\<rparr>] ! b) = isActive (h ! b)"
proof (cases "a < length h")
  case True
  then show ?thesis by (cases "b = a") simp_all
next
  case False
  then show ?thesis by (simp add: list_update_beyond)
qed

lemma setDocumentId_fields:
  "currentSession (setDocumentId sid d st) = currentSession st"
  "projectSessions (setDocumentId sid d st) = projectSessions st"
  "length (store (setDocumentId sid d st)) = length (store st)"
  "isActive (store (setDocumentId sid d st) ! b) = isActive (store st ! b)"
  by (simp_all add: setDocumentId_def isActive_update split: option.splits prod.splits)

lemma setDocumentId_wellFormed:
  "wellFormed st \<Longrightarrow> wellFormed (setDocumentId sid d st)"
  by (simp add: wellFormed_iff setDocumentId_fields)

lemma endSession_state:
  "snd (endSession env input st) = st \<or> snd (endSession env input st) = endCurrentSession st"
  by (simp add: endSession_def Let_def split: option.splits sum.splits)

lemma endSession_wellFormed:
  "wellFormed st \<Longrightarrow> wellFormed (snd (endSession env input st))"
  using endSession_state [of env input st] by (auto simp: endCurrentSession_wellFormed)

lemma step_wellFormed: "wellFormed st \<Longrightarrow> wellFormed (step op st)"
  by (cases op)
    (simp_all add: startSession_wellFormed continueSession_wellFormed
      endCurrentSession_wellFormed endSession_wellFormed setDocumentId_wellFormed)

lemma run_wellFormed: "wellFormed st \<Longrightarrow> wellFormed (run ops st)"
  unfolding run_def by (induction ops arbitrary: st) (simp_all add: step_wellFormed)

lemma wellFormed_active_le: "wellFormed st \<Longrightarrow> length (activeSessions st) \<le> 1"
  by (simp add: wellFormed_def split: option.splits)

lemma addSessionEnd_result:
  "addSessionEnd env docId s steps =
     (if docId = [] then Inl ZodError else if docsAccept env then Inr () else Inl AppendFailed)"
  by (simp add: addSessionEnd_def appendContent_def Let_def split: option.splits)

section \<open>Facts about the authentication manager\<close>

lemma TokenDataSchema_parse_expiry:
  "TokenDataSchema_parse u = Inr tokens \<Longrightarrow> expiry_date tokens \<noteq> Some 0"
  by (auto simp: TokenDataSchema_parse_def split: unknown.splits option.splits if_splits)

lemma initialize_no_token_file:
  assumes "tokenFile w = None" and "cfile \<noteq> Unusable"
  shows "\<exists>c. initialize env cfile w = (Inr (), w\<lparr>oauth2Client := Some (newClient c)\<rparr>)"
  using assms by (cases cfile) (auto simp: initialize_def loadTokens_def)

lemma newClient_credentials: "credentials (newClient c) = noCredentials"
  by (simp add: newClient_def)

lemma TokenDataSchema_parse_Object:
  "\<exists>tokens. TokenDataSchema_parse (Object c) = Inr tokens"
  by (simp add: TokenDataSchema_parse_def)

lemma orElse_idem: "orElse (orElse v d) d = orElse v d"
  by (simp add: orElse_def truthy_def)

lemma orUndefined_idem: "orUndefined (orUndefined v) = orUndefined v"
  by (simp add: orUndefined_def truthy_def)

lemma TokenDataSchema_parse_idem:
  assumes "TokenDataSchema_parse (Object c) = Inr tokens"
  shows "TokenDataSchema_parse (Object tokens) = Inr tokens"
proof -
  from assms have t: "tokens =
      \<lparr>access_token = orElse (access_token c) [],
       refresh_token = orUndefined (refresh_token c),
       scope = orElse (scope c) [],
       token_type = orElse (token_type c) ''Bearer'',
       expiry_date = (case expiry_date c of None \<Rightarrow> None
                      | Some e \<Rightarrow> if e = 0 then None else Some e),
       id_token = orUndefined (id_token c)\<rparr>"
    by (simp add: TokenDataSchema_parse_def)
  have e: "(case (case expiry_date c of None \<Rightarrow> None
                  | Some e \<Rightarrow> if e = 0 then None else Some e) of
              None \<Rightarrow> None | Some e \<Rightarrow> if e = 0 then None else Some e)
           = (case expiry_date c of None \<Rightarrow> None
              | Some e \<Rightarrow> if e = 0 then None else Some e)"
    by (cases "expiry_date c") simp_all
  show ?thesis
    unfolding t by (simp add: TokenDataSchema_parse_def orElse_idem orUndefined_idem e)
qed

lemma refreshTokens_no_refresh_token:
  assumes "oauth2Client w = Some cl" and "\<not> truthy (refresh_token (credentials cl))"
  shows "refreshTokens env w = (Inl RefreshFailed, w)"
  using assms by (simp add: refreshTokens_def refreshAccessToken_def)

lemma refreshTokens_rejected:
  assumes "oauth2Client w = Some cl" and "truthy (refresh_token (credentials cl))"
    and "endpoint env = None"
  shows "refreshTokens env w = (Inl RefreshFailed, w\<lparr>tokenRequests := Suc (tokenRequests w)\<rparr>)"
  using assms by (simp add: refreshTokens_def refreshAccessToken_def Let_def)

lemma refreshTokens_ill_typed:
  assumes "oauth2Client w = Some cl" and "truthy (refresh_token (credentials cl))"
    and "endpoint env = Some (IllTyped granted)"
  shows "refreshTokens env w =
     (Inl InvalidRefreshData,
      w\<lparr>tokenRequests := Suc (tokenRequests w),
        oauth2Client := Some (cl\<lparr>credentials :=
                                granted\<lparr>refresh_token := refresh_token (credentials cl)\<rparr>\<rparr>)\<rparr>)"
  using assms
  by (simp add: refreshTokens_def refreshAccessToken_def Let_def withRefreshToken_def
      grantFields_def asUnknown_def TokenDataSchema_parse_def)

lemma refreshTokens_granted:
  assumes "oauth2Client w = Some cl" and "truthy (refresh_token (credentials cl))"
    and "endpoint env = Some (WellTyped granted)"
    and "TokenDataSchema_parse (Object (granted\<lparr>refresh_token := refresh_token (credentials cl)\<rparr>))
           = Inr tokens"
  shows "refreshTokens env w =
     (if writable env
      then (Inr (), w\<lparr>tokenRequests := Suc (tokenRequests w),
                        oauth2Client := Some (cl\<lparr>credentials := tokens\<rparr>),
                        tokenFile := Some (Object tokens)\<rparr>)
      else (Inl RefreshFailed, w\<lparr>tokenRequests := Suc (tokenRequests w),
                                  oauth2Client := Some (cl\<lparr>credentials := tokens\<rparr>)\<rparr>))"
  using assms TokenDataSchema_parse_idem [OF assms(4)]
  by (simp add: refreshTokens_def refreshAccessToken_def Let_def setCredentials_def saveTokens_def
      withRefreshToken_def grantFields_def asUnknown_def)

lemma auth_eval:
  "oauth2Client expiredWorld = Some expiredClient"
  "truthy (refresh_token (credentials expiredClient))"
  "endpoint refusing = None"
  "oauth2Client noRefreshWorld = Some (expiredClient\<lparr>credentials := oldTokens\<lparr>refresh_token := None\<rparr>\<rparr>)"
  "\<not> truthy (refresh_token (credentials (expiredClient\<lparr>credentials := oldTokens\<lparr>refresh_token := None\<rparr>\<rparr>)))"
  "endpoint granting = Some (WellTyped grantedTokens)"
  "writable granting"
  "endpoint unwritable = Some (WellTyped grantedTokens)"
  "\<not> writable unwritable"
  "endpoint illTyping = Some (IllTyped grantedTokens)"
  "TokenDataSchema_parse (Object (grantedTokens\<lparr>refresh_token := refresh_token (credentials expiredClient)\<rparr>)) = Inr newTokens"
  "grantedTokens\<lparr>refresh_token := refresh_token (credentials expiredClient)\<rparr> = newTokens"
  "expiredClient\<lparr>credentials := newTokens\<rparr> \<noteq> expiredClient"
  by code_simp+

section \<open>The examples, evaluated\<close>

lemma cartStarted_wellFormed: "wellFormed cartStarted"
  unfolding cartStarted_def by (rule startSession_wellFormed [OF wellFormed_initial])

lemma cartStarted_eval:
  "Map_get (projectSessions cartStarted) ''Cart'' = Some [0]"
  "Map_get (projectSessions cartStarted) ''Shop'' = None"
  "currentSession cartStarted = Some 0"
  "projectName (store cartStarted ! 0) = ''Cart''"
  "startTime (store cartStarted ! 0) = 1736937000000"
  "session_id (store cartStarted ! 0) = ''session-2025-01-15T10-30-00-k3j9x1''"
  "documentName (store cartStarted ! 0) = ''session-cart-2025-01-15-jane-doe''"
  by code_simp+

lemma dates_eval:
  "isoDate 1736937000000 = ''2025-01-15''"
  "getTodaysDate sameDay = ''2025-01-15''"
  "getTodaysDate nextDay = ''2025-01-16''"
  by code_simp+

lemma cartAttached_eval:
  "getTodaysDocumentId cartAttached ''Cart'' = Some ''doc-1''"
  "needsNewDocument cartAttached ''Cart'' = False"
  "currentSession cartAttached = Some 0"
  "isActive (store cartAttached ! 0)"
  "documentId (store cartAttached ! 0) = ''doc-1''"
  "isoDate (startTime (store cartAttached ! 0)) = ''2025-01-15''"
  "getTodaysDate (nameClock envC) = ''2025-01-16''"
  by code_simp+

lemma restarted_eval:
  "documentId (store (snd (startSession envC ''Cart'' ''Fix bug'' None cartAttached)) ! 1) = ''doc-1''"
  by code_simp

lemma names_eval:
  "getCurrentUsername envA = ''jane-doe''"
  "getTodaysDate (nameClock envA) = ''2025-01-15''"
  "list_all isNameChar ''jane-doe''"
  "list_all isNameChar ''2025-01-15''"
  "sanitizeProjectName ''Cart'' = ''cart''"
  "generateDocumentName envB ''Customer Platform Migration: Phase Two''
     = ''session-customer-platform-migration-phase-two-2025-01-15-j.doe''"
  "\<not> isNameChar (CHR ''.'')"
  by code_simp+

section \<open>The claims\<close>

text \<open>
  C1. At most one session is active at any time: after any sequence of operations of the
  manager (start, continue, end, also the end through the service, and the attachment of
  a document) from the initial state at most one session of the store has \<open>isActive\<close>
  set. Starting a session \<open>A\<close> and then a session \<open>B\<close> from such a state leaves exactly
  one active session, the new session of \<open>B\<close>, which is the current one; each start first
  deactivates the session that was current, whatever its project.
\<close>

theorem one_active_session:
  "length (activeSessions (run ops initialState)) \<le> 1
   \<and> (let st = run ops initialState;
           (a, st1) = startSession env1 projectA objectiveA templateA st;
           (b, st2) = startSession env2 projectB objectiveB templateB st1
       in activeSessions st1 = [a] \<and> projectName (store st1 ! a) = projectA
          \<and> (case currentSession st of None \<Rightarrow> True | Some c \<Rightarrow> \<not> isActive (store st1 ! c))
          \<and> activeSessions st2 = [b] \<and> projectName (store st2 ! b) = projectB
          \<and> currentSession st2 = Some b \<and> a \<noteq> b \<and> \<not> isActive (store st2 ! a))"
proof -
  let ?st = "run ops initialState"
  let ?r1 = "startSession env1 projectA objectiveA templateA ?st"
  let ?r2 = "startSession env2 projectB objectiveB templateB (snd ?r1)"
  have wf: "wellFormed ?st" by (rule run_wellFormed [OF wellFormed_initial])
  have wf1: "wellFormed (snd ?r1)" by (rule startSession_wellFormed [OF wf])
  have a1: "activeSessions (snd ?r1) = [fst ?r1]"
    using startSession_active [OF wf] by (simp add: startSession_fields)
  have a2: "activeSessions (snd ?r2) = [fst ?r2]"
    using startSession_active [OF wf1] by (simp add: startSession_fields)
  have ne: "fst ?r1 \<noteq> fst ?r2" by (simp add: startSession_fields)
  have lt: "fst ?r1 < length (store (snd ?r2))" by (simp add: startSession_fields)
  from a2 ne lt have off: "\<not> isActive (store (snd ?r2) ! fst ?r1)"
    by (auto simp: activeSessions_single)
  have prev: "(case currentSession ?st of None \<Rightarrow> True
               | Some c \<Rightarrow> \<not> isActive (store (snd ?r1) ! c))"
  proof (cases "currentSession ?st")
    case None
    then show ?thesis by simp
  next
    case (Some c)
    with wf have "c < length (store ?st)" by (simp add: wellFormed_iff)
    then show ?thesis
      using Some endCurrentSession_inactive [OF wf] by (simp add: startSession_nth)
  qed
  have p1: "projectName (store (snd ?r1) ! fst ?r1) = projectA"
    by (simp add: startSession_fields startSession_nth)
  have p2: "projectName (store (snd ?r2) ! fst ?r2) = projectB"
    by (simp add: startSession_fields(1) startSession_nth)
  have c2: "currentSession (snd ?r2) = Some (fst ?r2)"
    by (simp add: startSession_fields(1,2))
  show ?thesis
    using wellFormed_active_le [OF wf] a1 a2 ne off prev p1 p2 c2
    by (simp add: case_prod_beta Let_def)
qed

text \<open>
  C2. A token is expired exactly when it has no expiry or the current instant is at or
  past the expiry; at the boundary, where the instant equals the expiry, it is expired,
  and a token with no expiry is expired. \<open>isTokenExpired\<close> reads an expiry of 0 as no
  expiry, so the equivalence is stated for the tokens whose expiry is not 0 (all that
  the token schema returns) or a clock that is not before the epoch.
\<close>

theorem isTokenExpired_iff:
  assumes "expiry_date tokens \<noteq> Some 0 \<or> 0 \<le> now"
  shows "(isTokenExpired tokens now
           \<longleftrightarrow> expiry_date tokens = None \<or> (\<exists>e. expiry_date tokens = Some e \<and> e \<le> now))
         \<and> isTokenExpired (tokens\<lparr>expiry_date := Some now\<rparr>) now
         \<and> isTokenExpired (tokens\<lparr>expiry_date := None\<rparr>) now"
  using assms by (auto simp: isTokenExpired_def split: option.splits)

text \<open>
  The token of the examples expires at 10:30:00.000: it is expired at that instant and
  one millisecond later, not one millisecond earlier, and expired at any time once its
  expiry is removed.
\<close>

theorem isTokenExpired_iff_witness:
  "expiry_date oldTokens = Some 1736937000000
   \<and> isTokenExpired oldTokens 1736937000000
   \<and> \<not> isTokenExpired oldTokens 1736936999999
   \<and> isTokenExpired oldTokens 1736937000001
   \<and> isTokenExpired (oldTokens\<lparr>expiry_date := None\<rparr>) 1736936999999"
  using isTokenExpired_iff [of oldTokens 1736937000000]
    isTokenExpired_iff [of oldTokens 1736936999999]
    isTokenExpired_iff [of oldTokens 1736937000001]
  by (simp add: oldTokens_def)

text \<open>
  C3. The claim is that the lookup of today's document returns the cached identifier
  only when it was recorded on the current UTC day. \<open>getTodaysDocumentId\<close> reads no clock
  and the index stores no date: the identifier attached on 15 January 2025 is returned
  on 16 January, \<open>needsNewDocument\<close> is false, and the session started on 16 January,
  whose document name carries the new date, gets the document of the day before.
\<close>

theorem getTodaysDocumentId_stale:
  "isoDate (startTime (store cartAttached ! 0)) = ''2025-01-15''
   \<and> getTodaysDate nextDay = ''2025-01-16''
   \<and> getTodaysDocumentId cartAttached ''Cart'' = Some ''doc-1''
   \<and> needsNewDocument cartAttached ''Cart'' = False
   \<and> getTodaysDate (nameClock envC) = ''2025-01-16''
   \<and> documentId (store (snd (startSession envC ''Cart'' ''Fix bug'' None cartAttached)) ! 1) = ''doc-1''"
  using restarted_eval by (simp add: cartAttached_eval dates_eval)

text \<open>
  C4. For a state of the manager and a project (a non-empty name) with a non-empty
  history: when the last session of the history was started on today's UTC date,
  \<open>continueSession\<close> returns that session and makes it the current and only active one,
  the session otherwise as it was and the histories unchanged; when it was started on
  another date the call returns none and changes nothing. Two instants of the same UTC
  day number have the same date. With no project, the same check is made on the current
  session: it is returned when it is of today, and ended, with none returned, when it is
  of another day.
\<close>

theorem continueSession_day_check:
  assumes "wellFormed st"
  shows "(name \<noteq> [] \<and> Map_get (projectSessions st) name = Some sessions \<and> sessions \<noteq> [] \<longrightarrow>
           (if isoDate (startTime (store st ! last sessions)) = getTodaysDate now
            then continueSession now (Some name) st
                   = (Some (last sessions), reactivated (last sessions) st)
                 \<and> currentSession (reactivated (last sessions) st) = Some (last sessions)
                 \<and> activeSessions (reactivated (last sessions) st) = [last sessions]
                 \<and> store (reactivated (last sessions) st) ! last sessions
                     = (store st ! last sessions)\<lparr>isActive := True\<rparr>
                 \<and> projectSessions (reactivated (last sessions) st) = projectSessions st
            else continueSession now (Some name) st = (None, st)))
       \<and> (name \<noteq> [] \<and> Map_get (projectSessions st) name = Some sessions \<and> sessions \<noteq> []
            \<and> startTime (store st ! last sessions) div 86400000 = now div 86400000 \<longrightarrow>
              continueSession now (Some name) st
                = (Some (last sessions), reactivated (last sessions) st))
       \<and> (case currentSession st of
             None \<Rightarrow> continueSession now None st = (None, st)
           | Some c \<Rightarrow>
               if isoDate (startTime (store st ! c)) = getTodaysDate now
               then continueSession now None st = (Some c, st)
               else continueSession now None st = (None, endCurrentSession st)
                    \<and> currentSession (endCurrentSession st) = None
                    \<and> activeSessions (endCurrentSession st) = [])"
proof (intro conjI impI)
  assume h: "name \<noteq> [] \<and> Map_get (projectSessions st) name = Some sessions \<and> sessions \<noteq> []"
  then have "(name, sessions) \<in> set (projectSessions st)" by (simp add: Map_get_in_set)
  with assms h have l: "last sessions < length (store st)" by (auto simp: wellFormed_iff)
  have wf': "wellFormed (reactivated (last sessions) st)"
    by (rule reactivated_wellFormed [OF assms l])
  then have act: "activeSessions (reactivated (last sessions) st) = [last sessions]"
    by (simp add: wellFormed_def reactivated_fields)
  show "if isoDate (startTime (store st ! last sessions)) = getTodaysDate now
        then continueSession now (Some name) st
               = (Some (last sessions), reactivated (last sessions) st)
             \<and> currentSession (reactivated (last sessions) st) = Some (last sessions)
             \<and> activeSessions (reactivated (last sessions) st) = [last sessions]
             \<and> store (reactivated (last sessions) st) ! last sessions
                 = (store st ! last sessions)\<lparr>isActive := True\<rparr>
             \<and> projectSessions (reactivated (last sessions) st) = projectSessions st
        else continueSession now (Some name) st = (None, st)"
    using h act reactivated_nth(1) [OF l]
    by (simp add: continueSession_today continueSession_other_day reactivated_fields)
next
  assume "name \<noteq> [] \<and> Map_get (projectSessions st) name = Some sessions \<and> sessions \<noteq> []
          \<and> startTime (store st ! last sessions) div 86400000 = now div 86400000"
  then show "continueSession now (Some name) st
               = (Some (last sessions), reactivated (last sessions) st)"
    using isoDate_same_day [of "startTime (store st ! last sessions)" now]
    by (simp add: continueSession_today getTodaysDate_def)
next
  show "case currentSession st of
          None \<Rightarrow> continueSession now None st = (None, st)
        | Some c \<Rightarrow>
            if isoDate (startTime (store st ! c)) = getTodaysDate now
            then continueSession now None st = (Some c, st)
            else continueSession now None st = (None, endCurrentSession st)
                 \<and> currentSession (endCurrentSession st) = None
                 \<and> activeSessions (endCurrentSession st) = []"
    using activeSessions_endCurrentSession [OF assms]
    by (simp add: continueSession_def continueCurrent_def Let_def endCurrentSession_fields
        split: option.splits)
qed

text \<open>
  The session started on 15 January 2025 at 10:30:00 UTC is continued at 19:40:00 of
  that day and not at 10:30:00 of the next day, by name or without a name; without a
  name the stale session is ended.
\<close>

theorem continueSession_day_check_witness:
  "wellFormed cartStarted
   \<and> Map_get (projectSessions cartStarted) ''Cart'' = Some [0]
   \<and> isoDate (startTime (store cartStarted ! 0)) = ''2025-01-15''
   \<and> getTodaysDate sameDay = ''2025-01-15''
   \<and> continueSession sameDay (Some ''Cart'') cartStarted = (Some 0, reactivated 0 cartStarted)
   \<and> activeSessions (reactivated 0 cartStarted) = [0]
   \<and> getTodaysDate nextDay = ''2025-01-16''
   \<and> continueSession nextDay (Some ''Cart'') cartStarted = (None, cartStarted)
   \<and> continueSession sameDay None cartStarted = (Some 0, cartStarted)
   \<and> continueSession nextDay None cartStarted = (None, endCurrentSession cartStarted)
   \<and> activeSessions (endCurrentSession cartStarted) = []"
  using continueSession_day_check [OF cartStarted_wellFormed, of "''Cart''" "[0]" sameDay]
    continueSession_day_check [OF cartStarted_wellFormed, of "''Cart''" "[0]" nextDay]
  by (simp add: cartStarted_wellFormed cartStarted_eval dates_eval)

text \<open>
  C5, as stated, fails: with a session active, \<open>endSession\<close> first appends the note of
  the end to the document of the session, and when that fails the error goes to the
  caller and the session stays active.
\<close>

theorem endSession_counterexample:
  "currentSession cartAttached = Some 0
   \<and> isActive (store cartAttached ! 0)
   \<and> endSession endRefused noInput cartAttached = (Inl AppendFailed, cartAttached)"
  by (simp add: cartAttached_eval endSession_def getCurrentSession_def addSessionEnd_result
      endRefused_def Let_def noInput_def)

text \<open>
  C5, amended. With no current session \<open>endSession\<close> fails with \<open>NoActiveSession\<close>
  and changes nothing. With a current session that has a document, and the note
  appended, it returns that session and ends it: \<open>isActive\<close> is cleared, no session is
  current or active, and the histories and the index are as before. When the session
  has no document or the append is refused, it fails and changes nothing.
\<close>

theorem endSession_amended:
  "(currentSession st = None \<longrightarrow> endSession env input st = (Inl NoActiveSession, st))
   \<and> (currentSession st = Some c \<and> documentId (store st ! c) \<noteq> [] \<and> docsAccept env \<longrightarrow>
        (\<exists>s. endSession env input st = (Inr (c, s), endCurrentSession st))
        \<and> currentSession (endCurrentSession st) = None
        \<and> store (endCurrentSession st) = (store st)[c := (store st ! c)\<lparr>isActive := False\<rparr>]
        \<and> projectSessions (endCurrentSession st) = projectSessions st
        \<and> todaysDocuments (endCurrentSession st) = todaysDocuments st
        \<and> (wellFormed st \<longrightarrow> activeSessions (endCurrentSession st) = []))
   \<and> (currentSession st = Some c \<and> (documentId (store st ! c) = [] \<or> \<not> docsAccept env) \<longrightarrow>
        (\<exists>e. endSession env input st = (Inl e, st)))"
proof (intro conjI impI)
  assume "currentSession st = None"
  then show "endSession env input st = (Inl NoActiveSession, st)"
    by (simp add: endSession_def getCurrentSession_def)
next
  assume h: "currentSession st = Some c \<and> documentId (store st ! c) \<noteq> [] \<and> docsAccept env"
  then show "\<exists>s. endSession env input st = (Inr (c, s), endCurrentSession st)"
    by (simp add: endSession_def getCurrentSession_def addSessionEnd_result Let_def)
  from h show "store (endCurrentSession st) = (store st)[c := (store st ! c)\<lparr>isActive := False\<rparr>]"
    by (simp add: endCurrentSession_def)
  show "currentSession (endCurrentSession st) = None"
    and "projectSessions (endCurrentSession st) = projectSessions st"
    and "todaysDocuments (endCurrentSession st) = todaysDocuments st"
    by (simp_all add: endCurrentSession_fields)
  show "activeSessions (endCurrentSession st) = []" if "wellFormed st"
    using that by (rule activeSessions_endCurrentSession)
next
  assume "currentSession st = Some c \<and> (documentId (store st ! c) = [] \<or> \<not> docsAccept env)"
  then show "\<exists>e. endSession env input st = (Inl e, st)"
    by (auto simp: endSession_def getCurrentSession_def addSessionEnd_result Let_def)
qed

text \<open>
  The three cases at the examples: the initial state, and the session with its document
  attached, the note accepted and refused.
\<close>

theorem endSession_amended_witness:
  "endSession endAccepted noInput initialState = (Inl NoActiveSession, initialState)
   \<and> wellFormed cartAttached
   \<and> currentSession cartAttached = Some 0
   \<and> documentId (store cartAttached ! 0) = ''doc-1''
   \<and> docsAccept endAccepted
   \<and> (\<exists>s. endSession endAccepted noInput cartAttached = (Inr (0, s), endCurrentSession cartAttached))
   \<and> projectSessions (endCurrentSession cartAttached) = projectSessions cartAttached
   \<and> activeSessions (endCurrentSession cartAttached) = []
   \<and> (\<exists>e. endSession endRefused noInput cartAttached = (Inl e, cartAttached))"
proof -
  have wf: "wellFormed cartAttached"
    unfolding cartAttached_def by (rule setDocumentId_wellFormed [OF cartStarted_wellFormed])
  have i: "currentSession initialState = None" by (simp add: initialState_def)
  have a: "docsAccept endAccepted" "\<not> docsAccept endRefused"
    by (simp_all add: endAccepted_def endRefused_def)
  show ?thesis
    using endSession_amended [where st = initialState and env = endAccepted and input = noInput]
      endSession_amended [where st = cartAttached and c = 0 and env = endAccepted and input = noInput]
      endSession_amended [where st = cartAttached and c = 0 and env = endRefused and input = noInput]
    by (simp add: wf i a cartAttached_eval)
qed

text \<open>
  C6. With a client but no access token (absent or empty), \<open>isAuthenticated\<close> is false
  and \<open>getAuthenticatedClient\<close> fails with \<open>NotAuthenticated\<close> and leaves the manager, the
  token file and the count of requests to the token endpoint as they were, whatever the
  endpoint would answer. This is the state after \<open>initialize\<close> with a usable credentials
  file and no token file.
\<close>

theorem no_access_token:
  "(oauth2Client w = Some cl \<and> \<not> truthy (access_token (credentials cl)) \<longrightarrow>
      \<not> isAuthenticated now w
      \<and> getAuthenticatedClient env w = (Inl NotAuthenticated, w))
   \<and> (tokenFile w = None \<and> cfile \<noteq> Unusable \<longrightarrow>
        fst (initialize ienv cfile w) = Inr ()
        \<and> \<not> isAuthenticated now (snd (initialize ienv cfile w))
        \<and> getAuthenticatedClient env (snd (initialize ienv cfile w))
            = (Inl NotAuthenticated, snd (initialize ienv cfile w))
        \<and> tokenRequests (snd (initialize ienv cfile w)) = tokenRequests w
        \<and> tokenFile (snd (initialize ienv cfile w)) = None)"
proof (intro conjI impI)
  assume "oauth2Client w = Some cl \<and> \<not> truthy (access_token (credentials cl))"
  then show "\<not> isAuthenticated now w"
    and "getAuthenticatedClient env w = (Inl NotAuthenticated, w)"
    by (simp_all add: isAuthenticated_def getAuthenticatedClient_def)
next
  assume "tokenFile w = None \<and> cfile \<noteq> Unusable"
  then obtain c where i0: "initialize ienv cfile w = (Inr (), w\<lparr>oauth2Client := Some (newClient c)\<rparr>)"
    and f: "tokenFile w = None"
    using initialize_no_token_file [of w cfile ienv] by blast
  define cl where "cl = newClient c"
  have i: "initialize ienv cfile w = (Inr (), w\<lparr>oauth2Client := Some cl\<rparr>)"
    and c: "credentials cl = noCredentials"
    using i0 by (simp_all add: cl_def newClient_credentials)
  from c have t: "\<not> truthy (access_token (credentials cl))"
    by (simp add: noCredentials_def truthy_def)
  show "fst (initialize ienv cfile w) = Inr ()" using i by simp
  show "\<not> isAuthenticated now (snd (initialize ienv cfile w))"
    using i t by (simp add: isAuthenticated_def)
  show "getAuthenticatedClient env (snd (initialize ienv cfile w))
          = (Inl NotAuthenticated, snd (initialize ienv cfile w))"
    using i t by (simp add: getAuthenticatedClient_def)
  show "tokenRequests (snd (initialize ienv cfile w)) = tokenRequests w" using i by simp
  show "tokenFile (snd (initialize ienv cfile w)) = None" using i f by simp
qed

text \<open>
  The manager of the examples, initialized with no token file.
\<close>

theorem no_access_token_witness:
  "tokenFile noWorld = None
   \<and> fst (initialize granting (Flat googleCredentials) noWorld) = Inr ()
   \<and> \<not> isAuthenticated sameDay (snd (initialize granting (Flat googleCredentials) noWorld))
   \<and> fst (getAuthenticatedClient granting (snd (initialize granting (Flat googleCredentials) noWorld)))
       = Inl NotAuthenticated
   \<and> tokenRequests (snd (getAuthenticatedClient granting
        (snd (initialize granting (Flat googleCredentials) noWorld)))) = 0"
  using no_access_token [where w = noWorld and cfile = "Flat googleCredentials"
      and ienv = granting and env = granting and now = sameDay]
  by (simp add: noWorld_def)

text \<open>
  C7, as stated, fails: a refresh can fail after the endpoint has granted tokens. When
  the token file cannot be written, \<open>refreshTokens\<close> fails with the error of a refused
  refresh, and the credentials in memory are already the new ones, while the token file
  holds the old ones.
\<close>

theorem refreshTokens_counterexample:
  "fst (refreshTokens unwritable expiredWorld) = Inl RefreshFailed
   \<and> oauth2Client expiredWorld = Some expiredClient
   \<and> oauth2Client (snd (refreshTokens unwritable expiredWorld))
       = Some (expiredClient\<lparr>credentials := newTokens\<rparr>)
   \<and> expiredClient\<lparr>credentials := newTokens\<rparr> \<noteq> expiredClient
   \<and> tokenFile (snd (refreshTokens unwritable expiredWorld)) = tokenFile expiredWorld"
  using refreshTokens_granted [OF auth_eval(1) auth_eval(2) auth_eval(8) auth_eval(11)]
  by (simp add: auth_eval)

text \<open>
  C7, amended. For a manager with a client: a refresh without a refresh token fails and
  changes nothing; a refresh the endpoint refuses fails and leaves the credentials in
  memory and the token file as they were. A refresh that fails after a grant, because
  the token schema refuses the grant or because the token file cannot be written, has
  replaced the credentials in memory (by the grant as it came, or by the validated
  tokens) and leaves the token file as it was. A refresh with a grant the schema
  accepts and a writable token file succeeds; a refresh that succeeds has put the
  validated tokens in memory and the same tokens in the token file; and the token file
  differs after the call only when the refresh succeeded.
\<close>

theorem refreshTokens_amended:
  assumes "oauth2Client w = Some cl"
  shows "(\<not> truthy (refresh_token (credentials cl)) \<longrightarrow>
           refreshTokens env w = (Inl RefreshFailed, w))
       \<and> (truthy (refresh_token (credentials cl)) \<and> endpoint env = None \<longrightarrow>
            fst (refreshTokens env w) = Inl RefreshFailed
            \<and> oauth2Client (snd (refreshTokens env w)) = oauth2Client w
            \<and> tokenFile (snd (refreshTokens env w)) = tokenFile w)
       \<and> (truthy (refresh_token (credentials cl)) \<and> endpoint env = Some (IllTyped granted) \<longrightarrow>
            fst (refreshTokens env w) = Inl InvalidRefreshData
            \<and> oauth2Client (snd (refreshTokens env w))
                = Some (cl\<lparr>credentials :=
                            granted\<lparr>refresh_token := refresh_token (credentials cl)\<rparr>\<rparr>)
            \<and> tokenFile (snd (refreshTokens env w)) = tokenFile w)
       \<and> (truthy (refresh_token (credentials cl)) \<and> endpoint env = Some (WellTyped granted)
            \<and> \<not> writable env \<longrightarrow>
            fst (refreshTokens env w) = Inl RefreshFailed
            \<and> (\<exists>tokens. TokenDataSchema_parse
                    (Object (granted\<lparr>refresh_token := refresh_token (credentials cl)\<rparr>)) = Inr tokens
                  \<and> oauth2Client (snd (refreshTokens env w)) = Some (cl\<lparr>credentials := tokens\<rparr>))
            \<and> tokenFile (snd (refreshTokens env w)) = tokenFile w)
       \<and> (truthy (refresh_token (credentials cl)) \<and> endpoint env = Some (WellTyped granted)
            \<and> writable env \<longrightarrow>
            fst (refreshTokens env w) = Inr ())
       \<and> (fst (refreshTokens env w) = Inr () \<longrightarrow>
            (\<exists>g tokens. endpoint env = Some (WellTyped g)
               \<and> TokenDataSchema_parse
                    (Object (g\<lparr>refresh_token := refresh_token (credentials cl)\<rparr>)) = Inr tokens
               \<and> oauth2Client (snd (refreshTokens env w)) = Some (cl\<lparr>credentials := tokens\<rparr>)
               \<and> tokenFile (snd (refreshTokens env w)) = Some (Object tokens)))
       \<and> (tokenFile (snd (refreshTokens env w)) \<noteq> tokenFile w \<longrightarrow>
            fst (refreshTokens env w) = Inr ())"
proof -
  let ?rt = "refresh_token (credentials cl)"
  have parse: "\<exists>tokens. TokenDataSchema_parse (Object (g\<lparr>refresh_token := ?rt\<rparr>)) = Inr tokens"
    for g by (rule TokenDataSchema_parse_Object)
  have none: "refreshTokens env w = (Inl RefreshFailed, w)" if "\<not> truthy ?rt"
    using that by (rule refreshTokens_no_refresh_token [OF assms])
  have rejected: "refreshTokens env w
      = (Inl RefreshFailed, w\<lparr>tokenRequests := Suc (tokenRequests w)\<rparr>)"
    if "truthy ?rt" and "endpoint env = None"
    using that by (rule refreshTokens_rejected [OF assms])
  have ill: "refreshTokens env w
      = (Inl InvalidRefreshData,
         w\<lparr>tokenRequests := Suc (tokenRequests w),
           oauth2Client := Some (cl\<lparr>credentials := g\<lparr>refresh_token := ?rt\<rparr>\<rparr>)\<rparr>)"
    if "truthy ?rt" and "endpoint env = Some (IllTyped g)" for g
    using that by (rule refreshTokens_ill_typed [OF assms])
  have well: "\<exists>tokens. TokenDataSchema_parse (Object (g\<lparr>refresh_token := ?rt\<rparr>)) = Inr tokens
      \<and> refreshTokens env w =
          (if writable env
           then (Inr (), w\<lparr>tokenRequests := Suc (tokenRequests w),
                             oauth2Client := Some (cl\<lparr>credentials := tokens\<rparr>),
                             tokenFile := Some (Object tokens)\<rparr>)
           else (Inl RefreshFailed, w\<lparr>tokenRequests := Suc (tokenRequests w),
                                       oauth2Client := Some (cl\<lparr>credentials := tokens\<rparr>)\<rparr>))"
    if "truthy ?rt" and "endpoint env = Some (WellTyped g)" for g
    using parse [of g] refreshTokens_granted [OF assms that] by blast
  have c1: "\<not> truthy ?rt \<longrightarrow> refreshTokens env w = (Inl RefreshFailed, w)"
    using none by blast
  have c2: "truthy ?rt \<and> endpoint env = None \<longrightarrow>
            fst (refreshTokens env w) = Inl RefreshFailed
            \<and> oauth2Client (snd (refreshTokens env w)) = oauth2Client w
            \<and> tokenFile (snd (refreshTokens env w)) = tokenFile w"
    using rejected by auto
  have c3: "truthy ?rt \<and> endpoint env = Some (IllTyped granted) \<longrightarrow>
            fst (refreshTokens env w) = Inl InvalidRefreshData
            \<and> oauth2Client (snd (refreshTokens env w))
                = Some (cl\<lparr>credentials := granted\<lparr>refresh_token := ?rt\<rparr>\<rparr>)
            \<and> tokenFile (snd (refreshTokens env w)) = tokenFile w"
    using ill [of granted] by auto
  have c4: "truthy ?rt \<and> endpoint env = Some (WellTyped granted) \<and> \<not> writable env \<longrightarrow>
            fst (refreshTokens env w) = Inl RefreshFailed
            \<and> (\<exists>tokens. TokenDataSchema_parse (Object (granted\<lparr>refresh_token := ?rt\<rparr>)) = Inr tokens
                  \<and> oauth2Client (snd (refreshTokens env w)) = Some (cl\<lparr>credentials := tokens\<rparr>))
            \<and> tokenFile (snd (refreshTokens env w)) = tokenFile w"
    using well [of granted] by auto
  have c5: "truthy ?rt \<and> endpoint env = Some (WellTyped granted) \<and> writable env \<longrightarrow>
            fst (refreshTokens env w) = Inr ()"
    using well [of granted] by auto
  have c6: "\<exists>g tokens. endpoint env = Some (WellTyped g)
               \<and> TokenDataSchema_parse (Object (g\<lparr>refresh_token := ?rt\<rparr>)) = Inr tokens
               \<and> oauth2Client (snd (refreshTokens env w)) = Some (cl\<lparr>credentials := tokens\<rparr>)
               \<and> tokenFile (snd (refreshTokens env w)) = Some (Object tokens)"
    if ok: "fst (refreshTokens env w) = Inr ()"
  proof (cases "truthy ?rt")
    case False
    with none ok show ?thesis by simp
  next
    case True
    show ?thesis
    proof (cases "endpoint env")
      case None
      with rejected [OF True] ok show ?thesis by simp
    next
      case (Some gr)
      show ?thesis
      proof (cases gr)
        case (IllTyped g)
        with ill [OF True, of g] Some ok show ?thesis by simp
      next
        case (WellTyped g)
        with well [OF True, of g] Some ok show ?thesis
          by (cases "writable env") auto
      qed
    qed
  qed
  have c7: "fst (refreshTokens env w) = Inr ()"
    if ch: "tokenFile (snd (refreshTokens env w)) \<noteq> tokenFile w"
  proof (cases "truthy ?rt")
    case False
    with none ch show ?thesis by simp
  next
    case True
    show ?thesis
    proof (cases "endpoint env")
      case None
      with rejected [OF True] ch show ?thesis by simp
    next
      case (Some gr)
      show ?thesis
      proof (cases gr)
        case (IllTyped g)
        with ill [OF True, of g] Some ch show ?thesis by simp
      next
        case (WellTyped g)
        with well [OF True, of g] Some ch show ?thesis
          by (cases "writable env") auto
      qed
    qed
  qed
  from c1 c2 c3 c4 c5 c6 c7 show ?thesis by blast
qed

text \<open>
  The refreshes at the examples: no refresh token, a refusal, a grant the schema refuses,
  a grant with a token file that cannot be written, and a grant that is saved.
\<close>

theorem refreshTokens_amended_witness:
  "refreshTokens granting noRefreshWorld = (Inl RefreshFailed, noRefreshWorld)
   \<and> fst (refreshTokens refusing expiredWorld) = Inl RefreshFailed
   \<and> oauth2Client (snd (refreshTokens refusing expiredWorld)) = oauth2Client expiredWorld
   \<and> tokenFile (snd (refreshTokens refusing expiredWorld)) = tokenFile expiredWorld
   \<and> fst (refreshTokens illTyping expiredWorld) = Inl InvalidRefreshData
   \<and> oauth2Client (snd (refreshTokens illTyping expiredWorld))
       = Some (expiredClient\<lparr>credentials := newTokens\<rparr>)
   \<and> tokenFile (snd (refreshTokens illTyping expiredWorld)) = tokenFile expiredWorld
   \<and> fst (refreshTokens unwritable expiredWorld) = Inl RefreshFailed
   \<and> oauth2Client (snd (refreshTokens unwritable expiredWorld))
       = Some (expiredClient\<lparr>credentials := newTokens\<rparr>)
   \<and> tokenFile (snd (refreshTokens unwritable expiredWorld)) = tokenFile expiredWorld
   \<and> fst (refreshTokens granting expiredWorld) = Inr ()
   \<and> oauth2Client (snd (refreshTokens granting expiredWorld))
       = Some (expiredClient\<lparr>credentials := newTokens\<rparr>)
   \<and> tokenFile (snd (refreshTokens granting expiredWorld)) = Some (Object newTokens)"
proof -
  note t = auth_eval(2)
  from refreshTokens_amended [OF auth_eval(4), of granting] auth_eval(5)
  have 1: "refreshTokens granting noRefreshWorld = (Inl RefreshFailed, noRefreshWorld)"
    by blast
  from refreshTokens_amended [OF auth_eval(1), of refusing] t auth_eval(3)
  have 2: "fst (refreshTokens refusing expiredWorld) = Inl RefreshFailed
           \<and> oauth2Client (snd (refreshTokens refusing expiredWorld)) = oauth2Client expiredWorld
           \<and> tokenFile (snd (refreshTokens refusing expiredWorld)) = tokenFile expiredWorld"
    by blast
  from refreshTokens_amended [OF auth_eval(1), of illTyping grantedTokens] t auth_eval(10)
  have "fst (refreshTokens illTyping expiredWorld) = Inl InvalidRefreshData
        \<and> oauth2Client (snd (refreshTokens illTyping expiredWorld))
            = Some (expiredClient\<lparr>credentials :=
                 grantedTokens\<lparr>refresh_token := refresh_token (credentials expiredClient)\<rparr>\<rparr>)
        \<and> tokenFile (snd (refreshTokens illTyping expiredWorld)) = tokenFile expiredWorld"
    by blast
  then have 3: "fst (refreshTokens illTyping expiredWorld) = Inl InvalidRefreshData
        \<and> oauth2Client (snd (refreshTokens illTyping expiredWorld))
            = Some (expiredClient\<lparr>credentials := newTokens\<rparr>)
        \<and> tokenFile (snd (refreshTokens illTyping expiredWorld)) = tokenFile expiredWorld"
    by (simp only: auth_eval(12))
  from refreshTokens_amended [OF auth_eval(1), of unwritable grantedTokens]
    t auth_eval(8) auth_eval(9)
  have "fst (refreshTokens unwritable expiredWorld) = Inl RefreshFailed
        \<and> (\<exists>tokens. TokenDataSchema_parse (Object (grantedTokens
                \<lparr>refresh_token := refresh_token (credentials expiredClient)\<rparr>)) = Inr tokens
              \<and> oauth2Client (snd (refreshTokens unwritable expiredWorld))
                  = Some (expiredClient\<lparr>credentials := tokens\<rparr>))
        \<and> tokenFile (snd (refreshTokens unwritable expiredWorld)) = tokenFile expiredWorld"
    by blast
  then have 4: "fst (refreshTokens unwritable expiredWorld) = Inl RefreshFailed
        \<and> oauth2Client (snd (refreshTokens unwritable expiredWorld))
            = Some (expiredClient\<lparr>credentials := newTokens\<rparr>)
        \<and> tokenFile (snd (refreshTokens unwritable expiredWorld)) = tokenFile expiredWorld"
    using auth_eval(11) by auto
  from refreshTokens_amended [OF auth_eval(1), of granting grantedTokens]
    t auth_eval(6) auth_eval(7)
  have ok: "fst (refreshTokens granting expiredWorld) = Inr ()"
    by blast
  with refreshTokens_amended [OF auth_eval(1), of granting grantedTokens]
  obtain g tokens where g: "endpoint granting = Some (WellTyped g)"
    and p: "TokenDataSchema_parse
              (Object (g\<lparr>refresh_token := refresh_token (credentials expiredClient)\<rparr>))
            = Inr tokens"
    and m: "oauth2Client (snd (refreshTokens granting expiredWorld))
            = Some (expiredClient\<lparr>credentials := tokens\<rparr>)"
    and f: "tokenFile (snd (refreshTokens granting expiredWorld)) = Some (Object tokens)"
    by blast
  from g auth_eval(6) have "g = grantedTokens" by simp
  with p auth_eval(11) have "tokens = newTokens" by simp
  with m f have 5: "oauth2Client (snd (refreshTokens granting expiredWorld))
                      = Some (expiredClient\<lparr>credentials := newTokens\<rparr>)
                    \<and> tokenFile (snd (refreshTokens granting expiredWorld))
                      = Some (Object newTokens)"
    by simp
  from 1 2 3 4 5 ok show ?thesis by blast
qed

text \<open>
  C8, as stated, fails: only the project part of the name is sanitized and cut. For a
  project of 38 characters and the operator \<^verbatim>\<open>J.Doe\<close> the name has 62 characters and
  contains a full stop.
\<close>

theorem documentName_counterexample:
  "generateDocumentName envB ''Customer Platform Migration: Phase Two''
     = ''session-customer-platform-migration-phase-two-2025-01-15-j.doe''
   \<and> length (generateDocumentName envB ''Customer Platform Migration: Phase Two'') = 62
   \<and> CHR ''.'' \<in> set (generateDocumentName envB ''Customer Platform Migration: Phase Two'')
   \<and> \<not> isNameChar (CHR ''.'')"
  by (simp add: names_eval)

text \<open>
  C8, amended. The generated name is a function of the project, the operator and the
  date: \<^verbatim>\<open>session-\<close>, the sanitized project, the date and the operator, joined by
  hyphens. The sanitized project has only characters of \<^verbatim>\<open>[a-z0-9-]\<close> and at most 50
  of them; the name is 10 characters longer than its three parts together, and has
  only characters of \<^verbatim>\<open>[a-z0-9-]\<close> when the operator and the date have.
\<close>

theorem documentName_amended:
  "generateDocumentName env p
     = documentNameOf p (getCurrentUsername env) (getTodaysDate (nameClock env))
   \<and> documentNameOf p u d = ''session-'' @ sanitizeProjectName p @ ''-'' @ d @ ''-'' @ u
   \<and> list_all isNameChar (sanitizeProjectName p)
   \<and> length (sanitizeProjectName p) \<le> 50
   \<and> length (documentNameOf p u d) = 10 + length (sanitizeProjectName p) + length d + length u
   \<and> (list_all isNameChar u \<and> list_all isNameChar d \<longrightarrow> list_all isNameChar (documentNameOf p u d))"
proof -
  have "list_all isNameChar ''session-''" by code_simp
  moreover have "list_all isNameChar ''-''" by code_simp
  ultimately have "list_all isNameChar (documentNameOf p u d)"
    if "list_all isNameChar u \<and> list_all isNameChar d"
    using that list_all_sanitizeProjectName [of p] by (simp add: documentNameOf_def)
  then show ?thesis
    by (simp add: generateDocumentName_def Let_def documentNameOf_length
        list_all_sanitizeProjectName sanitizeProjectName_length)
      (simp add: documentNameOf_def)
qed

text \<open>
  The name for the project \<^verbatim>\<open>Cart\<close> and the operator \<^verbatim>\<open>Jane Doe\<close> on 15 January 2025.
\<close>

theorem documentName_amended_witness:
  "generateDocumentName envA ''Cart'' = ''session-cart-2025-01-15-jane-doe''
   \<and> list_all isNameChar ''jane-doe'' \<and> list_all isNameChar ''2025-01-15''
   \<and> list_all isNameChar (documentNameOf ''Cart'' ''jane-doe'' ''2025-01-15'')
   \<and> length (documentNameOf ''Cart'' ''jane-doe'' ''2025-01-15'') = 32"
proof -
  have h: "list_all isNameChar ''jane-doe'' \<and> list_all isNameChar ''2025-01-15''"
    by code_simp
  have g: "generateDocumentName envA ''Cart'' = ''session-cart-2025-01-15-jane-doe''"
    by code_simp
  have l: "length (documentNameOf ''Cart'' ''jane-doe'' ''2025-01-15'') = 32"
    by code_simp
  from documentName_amended [of envA "''Cart''" "''jane-doe''" "''2025-01-15''"]
  have "list_all isNameChar ''jane-doe'' \<and> list_all isNameChar ''2025-01-15''
        \<longrightarrow> list_all isNameChar (documentNameOf ''Cart'' ''jane-doe'' ''2025-01-15'')"
    by (elim conjE)
  with h have "list_all isNameChar (documentNameOf ''Cart'' ''jane-doe'' ''2025-01-15'')"
    by (rule_tac mp)
  with h g l show ?thesis by (intro conjI) (erule conjunct1 conjunct2 | assumption)+
qed

text \<open>
  C9. Attaching a document is idempotent: \<open>setDocumentId\<close> called twice with the same
  session identifier and document identifier leaves the whole state of the manager, so
  the document index and every session, as one call leaves it. This holds for every
  state and every identifier, found in a history or not.
\<close>

theorem setDocumentId_idempotent:
  "setDocumentId sessionId docId (setDocumentId sessionId docId st) = setDocumentId sessionId docId st"
proof (cases "findSession (store st) sessionId (projectSessions st)")
  case None
  then show ?thesis by (simp add: setDocumentId_def)
next
  case (Some pa)
  obtain project a where pa: "pa = (project, a)" by (cases pa)
  let ?h = "(store st)[a := (store st ! a)\<lparr>documentId := docId\<rparr>]"
  have once: "setDocumentId sessionId docId st =
      st\<lparr>store := ?h, todaysDocuments := Map_set (todaysDocuments st) project docId\<rparr>"
    using Some pa by (simp add: setDocumentId_def)
  have found: "findSession ?h sessionId (projectSessions st) = Some (project, a)"
    using Some pa findSession_cong [of ?h "store st" sessionId "projectSessions st"]
    by (simp add: session_id_update)
  show ?thesis
    unfolding once
    by (simp add: setDocumentId_def found update_twice Map_set_twice)
qed

text \<open>
  C10. When the project given to \<open>continueSession\<close> has no history, the call goes on to
  the check of the current session: a current session of today is returned, with the
  state unchanged, whatever its project.
\<close>

theorem continueSession_no_history:
  assumes "Map_get (projectSessions st) name = None \<or> Map_get (projectSessions st) name = Some []"
    and "currentSession st = Some c"
    and "isoDate (startTime (store st ! c)) = getTodaysDate now"
  shows "continueSession now (Some name) st = (Some c, st)"
  using assms by (auto simp: continueSession_def continueCurrent_def Let_def)

text \<open>
  The current session is of the project \<^verbatim>\<open>Cart\<close>; continuing \<^verbatim>\<open>Shop\<close>, which has no
  history, returns it.
\<close>

theorem continueSession_no_history_witness:
  "Map_get (projectSessions cartStarted) ''Shop'' = None
   \<and> currentSession cartStarted = Some 0
   \<and> projectName (store cartStarted ! 0) = ''Cart''
   \<and> continueSession sameDay (Some ''Shop'') cartStarted = (Some 0, cartStarted)"
  using continueSession_no_history [of cartStarted "''Shop''" 0 sameDay]
  by (simp add: cartStarted_eval dates_eval)

end
